theory Spec2Isabelle
  imports Main "HOL-Library.AList" "HOL-Library.Char_ord" "HOL-Library.List_Lexorder"
    "HOL-Library.Multiset" "HOL-Library.Word"
begin

section \<open>The document repository: data model\<close>

text \<open>
  Go strings are byte sequences, compared bytewise and lexicographically; they are
  modelled as \<open>string\<close> with the order of \<open>Char_ord\<close> and \<open>List_Lexorder\<close>.
  \<open>template.HTML\<close> is a string type.
\<close>

type_synonym HTML = string

record Document =
  Name :: string
  URL :: string

record Section =
  Name :: string
  Documents :: "Document list"
  Readme :: HTML

text \<open>
  \<open>ttl\<close> is a \<open>time.Duration\<close> (an \<open>int64\<close> of nanoseconds). \<open>cacheTime\<close> is an
  instant, in nanoseconds counted from the zero \<open>time.Time\<close>. A nil \<open>[]Section\<close> is the
  empty list: \<open>scan\<close> builds its result with \<open>append\<close> onto a nil slice, so the slice it
  returns is nil exactly when it has no element.
\<close>

record DocRepository =
  dir :: string
  cache :: "Section list"
  cacheTime :: int
  ttl :: "64 word"

datatype error = CouldNotStat | ReadFileError | RenderError

section \<open>The file system\<close>

text \<open>
  A directory entry as \<open>filepath.WalkDir\<close> meets it. \<open>File name content\<close> is any entry
  that is not a directory; \<open>content\<close> is \<open>None\<close> when \<open>os.ReadFile\<close> fails on it.
  \<open>Dir name failed entries\<close> is a directory: \<open>entries\<close> are what \<open>os.ReadDir\<close>
  returned for it, in the order returned, and \<open>failed\<close> says that \<open>os.ReadDir\<close> also
  returned an error (WalkDir then reports the error and still walks the entries it got).
\<close>

datatype entry =
    File string "string option"
  | Dir string bool "entry list"

text \<open>
  What sits at \<open>r.dir\<close>: \<open>StatError\<close> when \<open>os.Stat\<close> fails; \<open>LstatError\<close> when
  \<open>os.Stat\<close> succeeds and the \<open>os.Lstat\<close> of WalkDir fails; a non-directory; or
  a directory with the result of \<open>os.ReadDir\<close>.
\<close>

datatype fsroot =
    StatError
  | LstatError
  | RootFile
  | RootDir bool "entry list"

type_synonym filesystem = "string \<Rightarrow> fsroot"

section \<open>Library functions the repository calls\<close>

definition Separator :: char where
  "Separator = CHR ''/''"

text \<open>
  \<open>strings.ToLower\<close> as far as the tests of the repository need it: ASCII upper-case
  letters are folded, every other byte is kept. Go also folds letters beyond ASCII and
  replaces invalid UTF-8; no such letter folds to an ASCII letter of \<open>.pdf\<close>,
  \<open>readme.md\<close>, \<open>http://\<close> or \<open>https://\<close>, so the suffix, equality and prefix tests
  against these literals come out as in Go. Where the folded name is a sort key, the
  folding is a parameter (\<open>sorts_by\<close> below).
\<close>

definition lower_char :: "char \<Rightarrow> char" where
  "lower_char c =
     (if CHR ''A'' \<le> c \<and> c \<le> CHR ''Z'' then char_of (of_char c + (32::nat)) else c)"

definition ToLower :: "string \<Rightarrow> string" where
  "ToLower s = map lower_char s"

definition HasPrefix :: "string \<Rightarrow> string \<Rightarrow> bool" where
  "HasPrefix s p = (length p \<le> length s \<and> take (length p) s = p)"

definition HasSuffix :: "string \<Rightarrow> string \<Rightarrow> bool" where
  "HasSuffix s x = (length x \<le> length s \<and> drop (length s - length x) s = x)"

definition ToSlash :: "string \<Rightarrow> string" where
  "ToSlash p = map (\<lambda>c. if c = Separator then CHR ''/'' else c) p"

text \<open>
  \<open>filepath.Dir\<close>: the path up to its last separator, cleaned. On the paths
  \<open>filepath.Rel\<close> returns here (clean and relative) cleaning drops the trailing
  separators, and the empty path becomes \<open>.\<close>.
\<close>

definition filepath_Dir :: "string \<Rightarrow> string" where
  "filepath_Dir path =
     (let d = rev (dropWhile (\<lambda>c. c \<noteq> Separator) (rev path));
          c = rev (dropWhile (\<lambda>c. c = Separator) (rev d))
      in if c = [] then (if d = [] then ''.'' else [Separator]) else c)"

text \<open>\<open>template.HTMLEscapeString\<close>.\<close>

definition escape_char :: "char \<Rightarrow> string" where
  "escape_char c =
     (if c = CHR 0x00 then [CHR 0xEF, CHR 0xBF, CHR 0xBD]
      else if c = CHR 0x22 then ''&#34;''
      else if c = CHR 0x27 then ''&#39;''
      else if c = CHR ''&'' then ''&amp;''
      else if c = CHR ''<'' then ''&lt;''
      else if c = CHR ''>'' then ''&gt;''
      else [c])"

definition HTMLEscapeString :: "string \<Rightarrow> string" where
  "HTMLEscapeString s = concat (map escape_char s)"

text \<open>
  The goldmark document tree, as far as the repository looks at it: image nodes and link
  nodes carry a destination; the second field stands for everything else a node holds.
\<close>

datatype node =
    Image string string "node list"
  | Link string string "node list"
  | Other string "node list"

text \<open>
  The markdown engine is a parameter: \<open>Parse\<close> is \<open>md.Parser().Parse\<close> and
  \<open>Render\<close> is \<open>md.Renderer().Render\<close> on the source bytes and the tree, returning
  the buffer's content or an error.
\<close>

record markdown =
  Parse :: "string \<Rightarrow> node"
  Render :: "string \<Rightarrow> node \<Rightarrow> error + string"

text \<open>\<open>time.Since\<close>: the elapsed time as a Duration, saturating at the ends of int64.\<close>

definition maxDuration :: int where
  "maxDuration = 2 ^ 63 - 1"

definition minDuration :: int where
  "minDuration = - (2 ^ 63)"

definition time_Since :: "int \<Rightarrow> int \<Rightarrow> int" where
  "time_Since now t = max minDuration (min maxDuration (now - t))"

section \<open>The narrative renderer\<close>

definition isRelativeURL :: "string \<Rightarrow> bool" where
  "isRelativeURL u =
     (let lower = ToLower u in
      if HasPrefix lower ''http://'' \<or> HasPrefix lower ''https://'' then False
      else \<not> HasPrefix lower ''/'')"

definition rewrite :: "string \<Rightarrow> string \<Rightarrow> string" where
  "rewrite basePrefix dest = (if isRelativeURL dest then basePrefix @ dest else dest)"

text \<open>The callback of \<open>ast.Walk\<close>, applied on entering every node of the tree.\<close>

fun rewrite_walk :: "string \<Rightarrow> node \<Rightarrow> node" where
  "rewrite_walk bp (Image dest a cs) = Image (rewrite bp dest) a (map (rewrite_walk bp) cs)"
| "rewrite_walk bp (Link dest a cs) = Link (rewrite bp dest) a (map (rewrite_walk bp) cs)"
| "rewrite_walk bp (Other a cs) = Other a (map (rewrite_walk bp) cs)"

text \<open>\<open>renderReadme\<close>; the first argument after the engine is the result of
  \<open>os.ReadFile(path)\<close>.\<close>

definition renderReadme :: "markdown \<Rightarrow> string option \<Rightarrow> string \<Rightarrow> error + HTML" where
  "renderReadme md file relDir =
     (case file of
        None \<Rightarrow> Inl ReadFileError
      | Some content \<Rightarrow>
          (let doc = Parse md content;
               basePrefix = ''/docs/'' @ relDir @ ''/'';
               doc' = rewrite_walk basePrefix doc
           in case Render md content doc' of
                Inl e \<Rightarrow> Inr (HTMLEscapeString content)
              | Inr out \<Rightarrow> Inr out))"

text \<open>The destinations of the image and link nodes of a tree, in the order of
  \<open>ast.Walk\<close>, and the tree with its destinations blanked.\<close>

fun dests :: "node \<Rightarrow> string list" where
  "dests (Image dest a cs) = dest # concat (map dests cs)"
| "dests (Link dest a cs) = dest # concat (map dests cs)"
| "dests (Other a cs) = concat (map dests cs)"

fun blank_dests :: "node \<Rightarrow> node" where
  "blank_dests (Image dest a cs) = Image [] a (map blank_dests cs)"
| "blank_dests (Link dest a cs) = Link [] a (map blank_dests cs)"
| "blank_dests (Other a cs) = Other a (map blank_dests cs)"

section \<open>The tree scanner\<close>

text \<open>
  One line of the process log, by the event and the root-relative path it names.
\<close>

datatype logline = ErrorAccessing string | ErrorReadingREADME string

text \<open>
  The variables the walk callback closes over. \<open>sectionsMap\<close> is a Go map; its keys
  are kept in the order of first insertion, which \<open>scan\<close> forgets by sorting them.
\<close>

record walk_state =
  generalDocs :: "Document list"
  sectionsMap :: "(string \<times> Section) list"
  logged :: "logline list"

definition entry_name :: "entry \<Rightarrow> string" where
  "entry_name e = (case e of File n c \<Rightarrow> n | Dir n f es \<Rightarrow> n)"

definition IsDir :: "entry \<Rightarrow> bool" where
  "IsDir e = (case e of File n c \<Rightarrow> False | Dir n f es \<Rightarrow> True)"

definition file_content :: "entry \<Rightarrow> string option" where
  "file_content e = (case e of File n c \<Rightarrow> c | Dir n f es \<Rightarrow> None)"

text \<open>
  One call \<open>fn(path, d, err)\<close> that WalkDir makes: whether \<open>path\<close> is \<open>r.dir\<close>, the
  path relative to \<open>r.dir\<close> (what \<open>filepath.Rel(r.dir, path)\<close> returns for a path
  WalkDir built by joining names onto \<open>r.dir\<close>, which never fails), the entry, and
  whether \<open>err\<close> is set.
\<close>

record call =
  is_root :: bool
  rel :: string
  d :: entry
  err :: bool

definition generalName :: string where
  "generalName = [CHR 0xD0, CHR 0x9E, CHR 0xD0, CHR 0xB1, CHR 0xD1, CHR 0x89,
                  CHR 0xD0, CHR 0xB5, CHR 0xD0, CHR 0xB5]"

definition walkFn :: "markdown \<Rightarrow> call \<Rightarrow> walk_state \<Rightarrow> walk_state" where
  "walkFn md c st =
     (if err c then st\<lparr>logged := logged st @ [ErrorAccessing (rel c)]\<rparr>
      else if is_root c then st
      else if IsDir (d c) then st
      else
        let lowerName = ToLower (entry_name (d c));
            dirRel = filepath_Dir (rel c)
        in
          if dirRel = ''.'' then
            (if HasSuffix lowerName ''.pdf''
             then st\<lparr>generalDocs := generalDocs st @
                    [\<lparr>Document.Name = entry_name (d c), URL = ''/docs/'' @ entry_name (d c)\<rparr>]\<rparr>
             else st)
          else
            let sec = (case map_of (sectionsMap st) dirRel of
                         Some s \<Rightarrow> s
                       | None \<Rightarrow> \<lparr>Section.Name = ToSlash dirRel, Documents = [], Readme = []\<rparr>);
                st1 = st\<lparr>sectionsMap := AList.update dirRel sec (sectionsMap st)\<rparr>
            in
              if HasSuffix lowerName ''.pdf'' then
                st1\<lparr>sectionsMap := AList.update dirRel
                      (sec\<lparr>Documents := Documents sec @
                         [\<lparr>Document.Name = entry_name (d c),
                           URL = ''/docs/'' @ ToSlash (rel c)\<rparr>]\<rparr>)
                      (sectionsMap st1)\<rparr>
              else if lowerName = ''readme.md'' then
                (case renderReadme md (file_content (d c)) (ToSlash dirRel) of
                   Inl e \<Rightarrow> st1\<lparr>logged := logged st1 @ [ErrorReadingREADME dirRel]\<rparr>
                 | Inr readmeHTML \<Rightarrow>
                     st1\<lparr>sectionsMap := AList.update dirRel
                           (sec\<lparr>Readme := readmeHTML\<rparr>) (sectionsMap st1)\<rparr>)
              else st1)"

text \<open>
  \<open>filepath.WalkDir\<close> with a callback that never returns an error or SkipDir: it calls
  the callback on an entry, then, for a directory, once more when \<open>os.ReadDir\<close> failed,
  and then on the entries of the directory in the order \<open>os.ReadDir\<close> gave.
  \<open>child_rel\<close> is the relative path of an entry of the directory at \<open>p\<close>.
\<close>

definition child_rel :: "string \<Rightarrow> string \<Rightarrow> string" where
  "child_rel p n = (if p = ''.'' then n else p @ [Separator] @ n)"

fun walk_calls :: "string \<Rightarrow> entry \<Rightarrow> call list"
  and walk_entries :: "string \<Rightarrow> entry list \<Rightarrow> call list" where
  "walk_calls p (File n c) = [\<lparr>is_root = False, rel = p, d = File n c, err = False\<rparr>]"
| "walk_calls p (Dir n failed es) =
     \<lparr>is_root = False, rel = p, d = Dir n failed es, err = False\<rparr> #
     (if failed then [\<lparr>is_root = False, rel = p, d = Dir n failed es, err = True\<rparr>] else []) @
     walk_entries p es"
| "walk_entries p [] = []"
| "walk_entries p (e # es) = walk_calls (child_rel p (entry_name e)) e @ walk_entries p es"

definition root_entry :: "string \<Rightarrow> fsroot \<Rightarrow> entry" where
  "root_entry name root =
     (case root of RootDir failed es \<Rightarrow> Dir name failed es | _ \<Rightarrow> File name None)"

definition WalkDir_calls :: "string \<Rightarrow> fsroot \<Rightarrow> call list" where
  "WalkDir_calls name root =
     (case root of
        StatError \<Rightarrow> [\<lparr>is_root = True, rel = ''.'', d = root_entry name root, err = True\<rparr>]
      | LstatError \<Rightarrow> [\<lparr>is_root = True, rel = ''.'', d = root_entry name root, err = True\<rparr>]
      | RootFile \<Rightarrow> [\<lparr>is_root = True, rel = ''.'', d = root_entry name root, err = False\<rparr>]
      | RootDir failed es \<Rightarrow>
          \<lparr>is_root = True, rel = ''.'', d = root_entry name root, err = False\<rparr> #
          (if failed
           then [\<lparr>is_root = True, rel = ''.'', d = root_entry name root, err = True\<rparr>]
           else []) @
          walk_entries ''.'' es)"

definition empty_state :: walk_state where
  "empty_state = \<lparr>generalDocs = [], sectionsMap = [], logged = []\<rparr>"

definition WalkDir :: "markdown \<Rightarrow> string \<Rightarrow> fsroot \<Rightarrow> walk_state" where
  "WalkDir md name root = foldl (\<lambda>st c. walkFn md c st) empty_state (WalkDir_calls name root)"


text \<open>The assembly of \<open>scan\<close>: the General section, then the sections of the sorted keys.\<close>

definition general_sections_by :: "(Document list \<Rightarrow> Document list) \<Rightarrow> walk_state \<Rightarrow> Section list" where
  "general_sections_by srt st =
     (if length (generalDocs st) > 0
      then [\<lparr>Section.Name = generalName, Documents = srt (generalDocs st), Readme = []\<rparr>]
      else [])"

definition emit_key_by :: "(Document list \<Rightarrow> Document list) \<Rightarrow> walk_state \<Rightarrow> string \<Rightarrow> Section list" where
  "emit_key_by srt st k =
     (case map_of (sectionsMap st) k of
        None \<Rightarrow> []
      | Some sec \<Rightarrow>
          if length (Documents sec) = 0 \<and> Readme sec = [] then []
          else [sec\<lparr>Documents := srt (Documents sec)\<rparr>])"

definition directory_sections_by :: "(Document list \<Rightarrow> Document list) \<Rightarrow> walk_state \<Rightarrow> Section list" where
  "directory_sections_by srt st =
     (let keys = sort (map fst (sectionsMap st))
      in concat (map (emit_key_by srt st) keys))"

text \<open>
  \<open>scan\<close>, returning its result and the lines it logged. The callback returns nil at
  every call (its one error return is that of \<open>filepath.Rel\<close>, see above), so
  \<open>filepath.WalkDir\<close> visits every entry and returns nil: the error return of \<open>scan\<close>
  after the walk is never taken, and \<open>os.Stat\<close> is the one source of an error.
\<close>

definition scan_by :: "(Document list \<Rightarrow> Document list) \<Rightarrow> markdown \<Rightarrow> filesystem \<Rightarrow> DocRepository
    \<Rightarrow> (error + Section list) \<times> logline list" where
  "scan_by srt md fs r =
     (case fs (dir r) of
        StatError \<Rightarrow> (Inl CouldNotStat, [])
      | root \<Rightarrow>
          (let st = WalkDir md (dir r) root
           in (Inr (general_sections_by srt st @ directory_sections_by srt st), logged st)))"

text \<open>
  One sort that meets the promise, for names in ASCII: the stable sort by the name with
  its ASCII letters folded. \<open>scan\<close> and its parts are the scanner with this sort; what is
  proved of them below does not depend on the order of documents inside a section, except
  where a section has one document.
\<close>

definition sortDocuments :: "Document list \<Rightarrow> Document list" where
  "sortDocuments ds = sort_key (\<lambda>x. ToLower (Document.Name x)) ds"

definition general_sections :: "walk_state \<Rightarrow> Section list" where
  "general_sections st = general_sections_by sortDocuments st"

definition emit_key :: "walk_state \<Rightarrow> string \<Rightarrow> Section list" where
  "emit_key st k = emit_key_by sortDocuments st k"

definition directory_sections :: "walk_state \<Rightarrow> Section list" where
  "directory_sections st = directory_sections_by sortDocuments st"

definition scan :: "markdown \<Rightarrow> filesystem \<Rightarrow> DocRepository
    \<Rightarrow> (error + Section list) \<times> logline list" where
  "scan md fs r = scan_by sortDocuments md fs r"

text \<open>What the callback does at a call, in parts: whether the call is for a
  non-directory below the root, whether a name is a PDF's, and the documents listed under
  a key of \<open>sectionsMap\<close>.\<close>

definition file_call :: "call \<Rightarrow> bool" where
  "file_call c = (\<not> err c \<and> \<not> is_root c \<and> \<not> IsDir (d c))"

definition is_pdf :: "string \<Rightarrow> bool" where
  "is_pdf n = HasSuffix (ToLower n) ''.pdf''"

definition sec_docs :: "walk_state \<Rightarrow> string \<Rightarrow> Document list" where
  "sec_docs st k = (case map_of (sectionsMap st) k of None \<Rightarrow> [] | Some s \<Rightarrow> Documents s)"

definition names_ok :: "walk_state \<Rightarrow> bool" where
  "names_ok st = (\<forall>k s. map_of (sectionsMap st) k = Some s \<longrightarrow> Section.Name s = ToSlash k)"

definition general_call_docs :: "call list \<Rightarrow> Document list" where
  "general_call_docs cs =
     map (\<lambda>c. \<lparr>Document.Name = entry_name (d c), URL = ''/docs/'' @ entry_name (d c)\<rparr>)
       (filter (\<lambda>c. file_call c \<and> filepath_Dir (rel c) = ''.'' \<and> is_pdf (entry_name (d c))) cs)"

definition call_docs :: "string \<Rightarrow> call list \<Rightarrow> Document list" where
  "call_docs k cs =
     map (\<lambda>c. \<lparr>Document.Name = entry_name (d c), URL = ''/docs/'' @ ToSlash (rel c)\<rparr>)
       (filter (\<lambda>c. file_call c \<and> filepath_Dir (rel c) = k \<and> is_pdf (entry_name (d c))) cs)"

definition call_log :: "call \<Rightarrow> logline list" where
  "call_log c =
     (if err c then [ErrorAccessing (rel c)]
      else if file_call c \<and> filepath_Dir (rel c) \<noteq> ''.'' \<and> \<not> is_pdf (entry_name (d c)) \<and>
              ToLower (entry_name (d c)) = ''readme.md'' \<and> file_content (d c) = None
      then [ErrorReadingREADME (filepath_Dir (rel c))]
      else [])"


definition call_readme :: "markdown \<Rightarrow> string \<Rightarrow> HTML \<Rightarrow> call \<Rightarrow> HTML" where
  "call_readme md k h c =
     (if file_call c \<and> filepath_Dir (rel c) = k \<and> k \<noteq> ''.'' \<and>
         ToLower (entry_name (d c)) = ''readme.md''
      then (case renderReadme md (file_content (d c)) (ToSlash k) of Inl e \<Rightarrow> h | Inr out \<Rightarrow> out)
      else h)"

section \<open>Directory trees, as the specification speaks of them\<close>

text \<open>
  A name a file system gives an entry: not empty, without a separator, and neither
  \<open>.\<close> nor \<open>..\<close>.
\<close>

definition valid_name :: "string \<Rightarrow> bool" where
  "valid_name n = (n \<noteq> [] \<and> Separator \<notin> set n \<and> n \<noteq> ''.'' \<and> n \<noteq> ''..'')"

fun valid_entry :: "entry \<Rightarrow> bool"
  and valid_entries :: "entry list \<Rightarrow> bool" where
  "valid_entry (File n c) = valid_name n"
| "valid_entry (Dir n failed es) = (valid_name n \<and> valid_entries es)"
| "valid_entries [] = True"
| "valid_entries (e # es) = (valid_entry e \<and> valid_entries es)"

text \<open>
  The non-directories of a tree, each with the root-relative path of the directory it
  sits directly in (\<open>.\<close> for the root): \<open>tree_files p es\<close> for the entries \<open>es\<close> of the
  directory at \<open>p\<close>.
\<close>

fun entry_files :: "string \<Rightarrow> entry \<Rightarrow> (string \<times> string) list"
  and tree_files :: "string \<Rightarrow> entry list \<Rightarrow> (string \<times> string) list" where
  "entry_files p (File n c) = [(p, n)]"
| "entry_files p (Dir n failed es) = tree_files (child_rel p n) es"
| "tree_files p [] = []"
| "tree_files p (e # es) = entry_files p e @ tree_files p es"

text \<open>The documents of the PDFs that sit directly in the directory at \<open>k\<close>, in the
  order of the walk.\<close>

definition dir_pdfs :: "string \<Rightarrow> (string \<times> string) list \<Rightarrow> Document list" where
  "dir_pdfs k fl =
     map (\<lambda>(p, n). \<lparr>Document.Name = n, URL = ''/docs/'' @ child_rel p n\<rparr>)
       (filter (\<lambda>(p, n). p = k \<and> is_pdf n) fl)"

text \<open>The failures met in a tree, in the order of the walk: a directory whose listing
  failed, and a README below the root that cannot be read.\<close>

fun entry_failures :: "string \<Rightarrow> entry \<Rightarrow> logline list"
  and tree_failures :: "string \<Rightarrow> entry list \<Rightarrow> logline list" where
  "entry_failures p (File n c) =
     (if p \<noteq> ''.'' \<and> ToLower n = ''readme.md'' \<and> c = None then [ErrorReadingREADME p] else [])"
| "entry_failures p (Dir n failed es) =
     (if failed then [ErrorAccessing (child_rel p n)] else []) @ tree_failures (child_rel p n) es"
| "tree_failures p [] = []"
| "tree_failures p (e # es) = entry_failures p e @ tree_failures p es"






definition good_path :: "string \<Rightarrow> bool" where
  "good_path p = (p = ''.'' \<or> (p \<noteq> [] \<and> last p \<noteq> Separator))"

section \<open>The TTL cache\<close>

definition NewDocRepository :: "string \<Rightarrow> 64 word \<Rightarrow> DocRepository" where
  "NewDocRepository dir0 cacheTTL = \<lparr>dir = dir0, cache = [], cacheTime = 0, ttl = cacheTTL\<rparr>"

definition fresh :: "DocRepository \<Rightarrow> int \<Rightarrow> bool" where
  "fresh r now = (time_Since now (cacheTime r) < sint (ttl r) \<and> cache r \<noteq> [])"

text \<open>
  \<open>GetSections\<close>, as one caller runs it among others. \<open>r\<close> is the repository as the
  caller reads it under the read lock and \<open>r'\<close> as it reads it under the write lock:
  while it waited for the write lock another caller may have refreshed the cache (\<open>dir\<close>
  and \<open>ttl\<close> are never written). \<open>t1\<close>, \<open>t2\<close> and \<open>t3\<close> are the clock readings of
  the two \<open>time.Since\<close> and of \<open>time.Now\<close>; \<open>fs\<close> is the file system as \<open>scan\<close> finds
  it. The result is the returned pair as a sum, the repository as the caller leaves it, and
  whether the caller ran \<open>scan\<close> (the one call of it is on no loop).
\<close>

definition GetSections_locked :: "markdown \<Rightarrow> filesystem \<Rightarrow> DocRepository \<Rightarrow> DocRepository
    \<Rightarrow> int \<Rightarrow> int \<Rightarrow> int \<Rightarrow> (error + Section list) \<times> DocRepository \<times> bool" where
  "GetSections_locked md fs r r' t1 t2 t3 =
     (if fresh r t1 then (Inr (cache r), r, False)
      else if fresh r' t2 then (Inr (cache r'), r', False)
      else
        (case fst (scan md fs r') of
           Inl e \<Rightarrow> (Inl e, r', True)
         | Inr sections \<Rightarrow> (Inr sections, r'\<lparr>cache := sections, cacheTime := t3\<rparr>, True)))"

text \<open>\<open>GetSections\<close> run by one caller alone: nobody writes between the two locks.\<close>

definition GetSections :: "markdown \<Rightarrow> filesystem \<Rightarrow> DocRepository \<Rightarrow> int \<Rightarrow> int \<Rightarrow> int
    \<Rightarrow> (error + Section list) \<times> DocRepository \<times> bool" where
  "GetSections md fs r t1 t2 t3 = GetSections_locked md fs r r t1 t2 t3"

section \<open>Concrete inputs\<close>

text \<open>Two markdown engines for concrete runs: one that wraps the source in a paragraph
  and one whose renderer always fails.\<close>

definition paragraph_markdown :: markdown where
  "paragraph_markdown =
     \<lparr>Parse = (\<lambda>s. Other s []), Render = (\<lambda>s n. Inr (''<p>'' @ s @ ''</p>''))\<rparr>"

definition failing_markdown :: markdown where
  "failing_markdown = \<lparr>Parse = (\<lambda>s. Other s []), Render = (\<lambda>s n. Inl RenderError)\<rparr>"

text \<open>The tree of \<open>TestDocRepository_Scan\<close>, each directory in the order of
  \<open>os.ReadDir\<close> (sorted by file name).\<close>

definition hr_entries :: "entry list" where
  "hr_entries =
     [Dir ''HR'' False
        [Dir ''2025'' False
           [File ''README.md'' (Some ''# HR 2025''), File ''plan.pdf'' (Some ''pdf content'')],
         File ''README.md'' (Some ''# HR Section''),
         File ''hiring.pdf'' (Some ''pdf content'')],
      File ''root.pdf'' (Some ''pdf content'')]"

text \<open>A README with a relative image, two links that are not relative, and an image
  whose scheme is in upper case.\<close>

definition sample_doc :: node where
  "sample_doc =
     Other ''document''
       [Other ''paragraph''
          [Image ''img.png'' ''alt'' [Other ''text'' []],
           Link ''https://example.com/x.png'' ''title'' [Other ''text'' []],
           Link ''/absolute/x.png'' ''title'' [],
           Image ''HTTP://EXAMPLE.COM/y.png'' ''alt'' []]]"

text \<open>A file system holding the same thing at every path, a root with one PDF, the
  section \<open>scan\<close> makes of it, and a repository whose cache holds that section and has
  expired at any time from 5 on.\<close>

definition fs_of :: "fsroot \<Rightarrow> filesystem" where
  "fs_of root = (\<lambda>p. root)"

definition one_pdf :: "entry list" where
  "one_pdf = [File ''a.pdf'' (Some ''pdf content'')]"

definition one_pdf_sections :: "Section list" where
  "one_pdf_sections =
     [\<lparr>Section.Name = generalName,
        Documents = [\<lparr>Document.Name = ''a.pdf'', URL = ''/docs/a.pdf''\<rparr>],
        Readme = []\<rparr>]"

definition cached_repo :: DocRepository where
  "cached_repo = \<lparr>dir = ''docs'', cache = one_pdf_sections, cacheTime = 0, ttl = 5\<rparr>"

text \<open>A root whose listing failed after two entries: a directory whose own listing
  failed and whose README cannot be read, and a PDF.\<close>

definition broken_entries :: "entry list" where
  "broken_entries =
     [Dir ''HR'' True [File ''README.md'' None, File ''hiring.pdf'' (Some ''pdf content'')],
      File ''root.pdf'' (Some ''pdf content'')]"

text \<open>A repository refreshed at time 3 with the one-PDF tree, with a TTL of 1000.\<close>

definition warm_repo :: DocRepository where
  "warm_repo = \<lparr>dir = ''docs'', cache = one_pdf_sections, cacheTime = 3, ttl = 1000\<rparr>"







section \<open>Lemmas: paths and the walk callback\<close>

lemma general_sections_unfold:
  "general_sections st =
     (if length (generalDocs st) > 0
      then [\<lparr>Section.Name = generalName, Documents = sortDocuments (generalDocs st),
             Readme = []\<rparr>]
      else [])"
  by (simp add: general_sections_def general_sections_by_def)

lemma emit_key_unfold:
  "emit_key st k =
     (case map_of (sectionsMap st) k of
        None \<Rightarrow> []
      | Some sec \<Rightarrow>
          if length (Documents sec) = 0 \<and> Readme sec = [] then []
          else [sec\<lparr>Documents := sortDocuments (Documents sec)\<rparr>])"
  by (simp add: emit_key_def emit_key_by_def)

lemma directory_sections_unfold:
  "directory_sections st = concat (map (emit_key st) (sort (map fst (sectionsMap st))))"
  by (simp add: directory_sections_def directory_sections_by_def emit_key_def [abs_def])

lemma scan_unfold:
  "scan md fs r =
     (case fs (dir r) of
        StatError \<Rightarrow> (Inl CouldNotStat, [])
      | root \<Rightarrow>
          (let st = WalkDir md (dir r) root
           in (Inr (general_sections st @ directory_sections st), logged st)))"
  by (cases "fs (dir r)")
    (simp_all add: scan_def scan_by_def general_sections_def directory_sections_def Let_def)

lemma GetSections_unfold:
  "GetSections md fs r t1 t2 t3 =
     (if fresh r t1 then (Inr (cache r), r, False)
      else if fresh r t2 then (Inr (cache r), r, False)
      else
        (case fst (scan md fs r) of
           Inl e \<Rightarrow> (Inl e, r, True)
         | Inr sections \<Rightarrow> (Inr sections, r\<lparr>cache := sections, cacheTime := t3\<rparr>, True)))"
  by (simp add: GetSections_def GetSections_locked_def)

lemma ToSlash_id: "ToSlash p = p"
  by (simp add: ToSlash_def Separator_def map_idI)

lemma walkFn_generalDocs:
  "generalDocs (walkFn md c st) = generalDocs st @
     (if file_call c \<and> filepath_Dir (rel c) = ''.'' \<and> is_pdf (entry_name (d c))
      then [\<lparr>Document.Name = entry_name (d c), URL = ''/docs/'' @ entry_name (d c)\<rparr>] else [])"
  by (simp add: walkFn_def file_call_def is_pdf_def Let_def split: sum.splits)

lemma walkFn_sec_docs:
  "sec_docs (walkFn md c st) k = sec_docs st k @
     (if file_call c \<and> filepath_Dir (rel c) = k \<and> k \<noteq> ''.'' \<and> is_pdf (entry_name (d c))
      then [\<lparr>Document.Name = entry_name (d c), URL = ''/docs/'' @ ToSlash (rel c)\<rparr>] else [])"
  by (auto simp add: walkFn_def sec_docs_def file_call_def is_pdf_def Let_def update_conv'
      split: sum.splits option.splits)

lemma walkFn_sectionsMap:
  "sectionsMap (walkFn md c st) =
     (if file_call c \<and> filepath_Dir (rel c) \<noteq> ''.''
      then AList.update (filepath_Dir (rel c))
             (the (map_of (sectionsMap (walkFn md c st)) (filepath_Dir (rel c)))) (sectionsMap st)
      else sectionsMap st)"
  by (simp add: walkFn_def file_call_def Let_def update_conv' split: sum.splits option.splits)

lemma walkFn_keys:
  "set (map fst (sectionsMap (walkFn md c st))) = set (map fst (sectionsMap st)) \<union>
     (if file_call c \<and> filepath_Dir (rel c) \<noteq> ''.'' then {filepath_Dir (rel c)} else {})"
  by (subst walkFn_sectionsMap) (simp add: dom_update del: map_map)


lemma walkFn_names_ok:
  "names_ok st \<Longrightarrow> names_ok (walkFn md c st)"
  by (auto simp add: walkFn_def names_ok_def Let_def update_conv' split: sum.splits option.splits)


lemma walkFn_logged:
  "logged (walkFn md c st) = logged st @ call_log c"
  by (auto simp add: walkFn_def call_log_def file_call_def is_pdf_def Let_def renderReadme_def
      HasSuffix_def split: sum.splits option.splits)

lemma fold_generalDocs:
  "generalDocs (foldl (\<lambda>st c. walkFn md c st) st cs) = generalDocs st @ general_call_docs cs"
  by (induction cs arbitrary: st) (simp_all add: general_call_docs_def walkFn_generalDocs)

lemma fold_sec_docs:
  "sec_docs (foldl (\<lambda>st c. walkFn md c st) st cs) k =
     sec_docs st k @ (if k = ''.'' then [] else call_docs k cs)"
  by (induction cs arbitrary: st) (simp_all add: call_docs_def walkFn_sec_docs)

lemma fold_logged:
  "logged (foldl (\<lambda>st c. walkFn md c st) st cs) = logged st @ concat (map call_log cs)"
  by (induction cs arbitrary: st) (simp_all add: walkFn_logged)

lemma fold_keys:
  "set (map fst (sectionsMap (foldl (\<lambda>st c. walkFn md c st) st cs))) =
     set (map fst (sectionsMap st)) \<union>
     {filepath_Dir (rel c) | c. c \<in> set cs \<and> file_call c \<and> filepath_Dir (rel c) \<noteq> ''.''}"
proof (induction cs arbitrary: st)
  case Nil
  show ?case by simp
next
  case (Cons c cs)
  have "set (map fst (sectionsMap (foldl (\<lambda>st c. walkFn md c st) (walkFn md c st) cs))) =
        set (map fst (sectionsMap (walkFn md c st))) \<union>
        {filepath_Dir (rel c) | c. c \<in> set cs \<and> file_call c \<and> filepath_Dir (rel c) \<noteq> ''.''}"
    by (rule Cons.IH)
  then show ?case
    by (simp only: foldl_Cons walkFn_keys) auto
qed


lemma fold_names_ok:
  "names_ok st \<Longrightarrow> names_ok (foldl (\<lambda>st c. walkFn md c st) st cs)"
  by (induction cs arbitrary: st) (simp_all add: walkFn_names_ok)

lemma good_child:
  assumes "valid_name n" "good_path p"
  shows "good_path (child_rel p n) \<and> child_rel p n \<noteq> ''.''"
proof -
  have n: "n \<noteq> []" "n \<noteq> ''.''" "Separator \<notin> set n"
    using assms(1) by (auto simp add: valid_name_def)
  have l: "last n \<noteq> Separator"
    using n(1) n(3) last_in_set by metis
  have "p @ Separator # n \<noteq> ''.''"
    using n(1) by (cases p) auto
  then show ?thesis
    using n l by (simp add: good_path_def child_rel_def)
qed

lemma Dir_child: 
  assumes "valid_name n" "good_path p"
  shows "filepath_Dir (child_rel p n) = p"
proof (cases "p = ''.''")
  case True
  have dw: "dropWhile (\<lambda>c. c \<noteq> Separator) (rev n) = []"
    using assms(1) by (auto simp add: valid_name_def)
  show ?thesis
    by (simp add: filepath_Dir_def child_rel_def True dw del: dropWhile_eq_Nil_conv)
next
  case False
  then have p: "p \<noteq> []" "last p \<noteq> Separator" using assms(2) by (auto simp: good_path_def)
  have 1: "dropWhile (\<lambda>c. c \<noteq> Separator) (rev n @ Separator # rev p) = Separator # rev p"
    using assms(1) by (auto simp add: valid_name_def dropWhile_append)
  have 2: "dropWhile (\<lambda>c. c = Separator) (rev p) = rev p"
    using p by (cases p rule: rev_cases) auto
  show ?thesis
    using False p by (simp add: filepath_Dir_def child_rel_def 1 2 del: dropWhile_eq_Nil_conv)
qed

section \<open>Lemmas: the calls of the walk and the tree\<close>

lemma call_docs_append: "call_docs k (xs @ ys) = call_docs k xs @ call_docs k ys"
  by (simp add: call_docs_def)

lemma general_call_docs_append: "general_call_docs (xs @ ys) = general_call_docs xs @ general_call_docs ys"
  by (simp add: general_call_docs_def)

lemma dir_pdfs_append: "dir_pdfs k (xs @ ys) = dir_pdfs k xs @ dir_pdfs k ys"
  by (simp add: dir_pdfs_def)

lemma calls_docs:
  "valid_entry e \<Longrightarrow> good_path p \<Longrightarrow> q = child_rel p (entry_name e) \<Longrightarrow>
     call_docs k (walk_calls q e) = dir_pdfs k (entry_files p e)"
  "valid_entries es \<Longrightarrow> good_path q' \<Longrightarrow>
     call_docs k (walk_entries q' es) = dir_pdfs k (tree_files q' es)"
proof (induction q e and q' es arbitrary: p and rule: walk_calls_walk_entries.induct)
  case (1 q n c)
  then have "filepath_Dir q = p" by (simp add: Dir_child entry_name_def)
  then show ?case using 1
    by (simp add: call_docs_def dir_pdfs_def file_call_def IsDir_def entry_name_def ToSlash_id)
next
  case (2 q n failed es)
  then have "good_path q" by (simp add: good_child entry_name_def)
  then have "call_docs k (walk_entries q es) = dir_pdfs k (tree_files q es)"
    using 2 by simp
  then show ?case using 2(4)
    by (simp add: call_docs_def file_call_def IsDir_def entry_name_def)
next
  case (3 p)
  show ?case by (simp add: call_docs_def dir_pdfs_def)
next
  case (4 p e es)
  then show ?case by (simp add: call_docs_append dir_pdfs_append)
qed

lemma calls_general_docs:
  "valid_entry e \<Longrightarrow> good_path p \<Longrightarrow> q = child_rel p (entry_name e) \<Longrightarrow>
     general_call_docs (walk_calls q e) = dir_pdfs ''.'' (entry_files p e)"
  "valid_entries es \<Longrightarrow> good_path q' \<Longrightarrow>
     general_call_docs (walk_entries q' es) = dir_pdfs ''.'' (tree_files q' es)"
proof (induction q e and q' es arbitrary: p and rule: walk_calls_walk_entries.induct)
  case (1 q n c)
  then have "filepath_Dir q = p" by (simp add: Dir_child entry_name_def)
  then show ?case using 1
    by (simp add: general_call_docs_def dir_pdfs_def file_call_def IsDir_def entry_name_def child_rel_def)
next
  case (2 q n failed es)
  then have "good_path q" by (simp add: good_child entry_name_def)
  then have "general_call_docs (walk_entries q es) = dir_pdfs ''.'' (tree_files q es)"
    using 2 by simp
  then show ?case using 2(4)
    by (simp add: general_call_docs_def file_call_def IsDir_def entry_name_def)
next
  case (3 p)
  show ?case by (simp add: general_call_docs_def dir_pdfs_def)
next
  case (4 p e es)
  then show ?case by (simp add: general_call_docs_append dir_pdfs_append)
qed

lemma not_pdf_readme: "ToLower n = ''readme.md'' \<Longrightarrow> \<not> is_pdf n"
  by (simp add: is_pdf_def HasSuffix_def)

lemma call_log_dir: "call_log \<lparr>is_root = b, rel = q, d = Dir n f es, err = False\<rparr> = []"
  by (simp add: call_log_def file_call_def IsDir_def)

lemma call_log_err: "call_log \<lparr>is_root = b, rel = q, d = e, err = True\<rparr> = [ErrorAccessing q]"
  by (simp add: call_log_def)

lemma calls_log:
  "valid_entry e \<Longrightarrow> good_path p \<Longrightarrow> q = child_rel p (entry_name e) \<Longrightarrow>
     concat (map call_log (walk_calls q e)) = entry_failures p e"
  "valid_entries es \<Longrightarrow> good_path q' \<Longrightarrow>
     concat (map call_log (walk_entries q' es)) = tree_failures q' es"
proof (induction q e and q' es arbitrary: p and rule: walk_calls_walk_entries.induct)
  case (1 q n c)
  then have "filepath_Dir q = p" by (simp add: Dir_child entry_name_def)
  then show ?case using 1
    by (auto simp add: call_log_def file_call_def IsDir_def entry_name_def file_content_def
        not_pdf_readme)
next
  case (2 q n failed es)
  then have "good_path q" by (simp add: good_child entry_name_def)
  then have "concat (map call_log (walk_entries q es)) = tree_failures q es"
    using 2 by simp
  then show ?case using 2(4)
    by (simp add: call_log_dir call_log_err entry_name_def)
next
  case (3 p)
  show ?case by simp
next
  case (4 p e es)
  then show ?case by simp
qed

section \<open>Lemmas: the state after the walk and the assembly\<close>

lemma root_call_docs:
  "call_docs k (\<lparr>is_root = True, rel = q, d = e, err = b\<rparr> # cs) = call_docs k cs"
  "general_call_docs (\<lparr>is_root = True, rel = q, d = e, err = b\<rparr> # cs) = general_call_docs cs"
  "call_docs k [] = []" "general_call_docs [] = []"
  by (simp_all add: call_docs_def general_call_docs_def file_call_def)

lemma empty_state_simps:
  "generalDocs empty_state = []" "sectionsMap empty_state = []" "logged empty_state = []"
  "sec_docs empty_state k = []" "names_ok empty_state"
  by (simp_all add: empty_state_def sec_docs_def names_ok_def)

lemma WalkDir_RootDir:
  "WalkDir md name (RootDir failed es) =
     foldl (\<lambda>st c. walkFn md c st) empty_state
       ([\<lparr>is_root = True, rel = ''.'', d = Dir name failed es, err = False\<rparr>] @
        (if failed then [\<lparr>is_root = True, rel = ''.'', d = Dir name failed es, err = True\<rparr>] else []) @
        walk_entries ''.'' es)"
  by (simp add: WalkDir_def WalkDir_calls_def root_entry_def)

lemma good_root: "good_path ''.''"
  by (simp add: good_path_def)

lemma WalkDir_generalDocs:
  "valid_entries es \<Longrightarrow>
   generalDocs (WalkDir md name (RootDir failed es)) = dir_pdfs ''.'' (tree_files ''.'' es)"
  by (simp add: WalkDir_RootDir fold_generalDocs general_call_docs_append root_call_docs
      empty_state_simps calls_general_docs good_root del: foldl_append foldl_Cons)

lemma WalkDir_sec_docs:
  "valid_entries es \<Longrightarrow> k \<noteq> ''.'' \<Longrightarrow>
   sec_docs (WalkDir md name (RootDir failed es)) k = dir_pdfs k (tree_files ''.'' es)"
  by (simp add: WalkDir_RootDir fold_sec_docs call_docs_append root_call_docs
      empty_state_simps calls_docs good_root del: foldl_append foldl_Cons)

lemma WalkDir_logged:
  "valid_entries es \<Longrightarrow>
   logged (WalkDir md name (RootDir failed es)) =
     (if failed then [ErrorAccessing ''.''] else []) @ tree_failures ''.'' es"
  by (simp add: WalkDir_RootDir fold_logged call_log_dir call_log_err
      empty_state_simps calls_log good_root del: foldl_append foldl_Cons)

lemma WalkDir_names_ok: "names_ok (WalkDir md name root)"
  by (simp add: WalkDir_def fold_names_ok empty_state_simps)


lemma WalkDir_keys: "''.'' \<notin> set (map fst (sectionsMap (WalkDir md name root)))"
  unfolding WalkDir_def fold_keys by (simp add: empty_state_simps)

lemma set_sortDocuments: "set (sortDocuments ds) = set ds"
  by (simp add: sortDocuments_def)

lemma sortDocuments_Nil: "sortDocuments ds = [] \<longleftrightarrow> ds = []"
  using length_sort [of "\<lambda>x. ToLower (Document.Name x)" ds]
  by (simp only: sortDocuments_def flip: length_0_conv)

lemma general_sections_cases:
  "s \<in> set (general_sections st) \<Longrightarrow>
     generalDocs st \<noteq> [] \<and>
     s = \<lparr>Section.Name = generalName, Documents = sortDocuments (generalDocs st), Readme = []\<rparr>"
  by (simp add: general_sections_unfold split: if_splits)

lemma emit_key_cases:
  "s \<in> set (emit_key st k) \<Longrightarrow>
     \<exists>sec. map_of (sectionsMap st) k = Some sec \<and>
           (Documents sec \<noteq> [] \<or> Readme sec \<noteq> []) \<and>
           s = sec\<lparr>Documents := sortDocuments (Documents sec)\<rparr>"
  by (cases "map_of (sectionsMap st) k") (auto simp add: emit_key_unfold split: if_splits)

lemma directory_sections_cases:
  assumes "s \<in> set (directory_sections st)"
  shows "\<exists>k sec. k \<in> set (map fst (sectionsMap st)) \<and> map_of (sectionsMap st) k = Some sec \<and>
           (Documents sec \<noteq> [] \<or> Readme sec \<noteq> []) \<and>
           s = sec\<lparr>Documents := sortDocuments (Documents sec)\<rparr>"
proof -
  from assms obtain k where k: "k \<in> set (map fst (sectionsMap st))" "s \<in> set (emit_key st k)"
    by (auto simp add: directory_sections_unfold)
  from emit_key_cases [OF k(2)] k(1) show ?thesis by blast
qed

lemma directory_section_docs:
  assumes "s \<in> set (directory_sections st)" "names_ok st"
  shows "Section.Name s \<in> set (map fst (sectionsMap st)) \<and>
         Documents s = sortDocuments (sec_docs st (Section.Name s)) \<and>
         (Documents s \<noteq> [] \<or> Readme s \<noteq> [])"
proof -
  from directory_sections_cases [OF assms(1)] obtain k sec where
    k: "k \<in> set (map fst (sectionsMap st))" "map_of (sectionsMap st) k = Some sec"
       "Documents sec \<noteq> [] \<or> Readme sec \<noteq> []"
       "s = sec\<lparr>Documents := sortDocuments (Documents sec)\<rparr>"
    by blast
  have "Section.Name sec = k" using assms(2) k(2) by (simp add: names_ok_def ToSlash_id)
  then show ?thesis using k by (simp add: sec_docs_def sortDocuments_Nil del: map_map)
qed

section \<open>The sections of a tree\<close>

lemma scan_RootDir:
  "fs (dir r) = RootDir failed es \<Longrightarrow>
   scan md fs r =
     (Inr (general_sections (WalkDir md (dir r) (RootDir failed es)) @
           directory_sections (WalkDir md (dir r) (RootDir failed es))),
      logged (WalkDir md (dir r) (RootDir failed es)))"
  by (simp add: scan_unfold Let_def)




text \<open>
  Claim C4. For a root directory, \<open>scan\<close> returns the General section (if any) followed
  by the directory sections. Every returned section has a document or a non-empty readme.
  When the names in the tree are file names, the documents of the General section are
  exactly the PDFs sitting directly in the root, and the documents of a directory section
  are exactly the PDFs sitting directly in the directory the section is named after
  (sorted): no file of a nested directory is among them.
\<close>

theorem scan_sections_own_files:
  assumes "fs (dir r) = RootDir failed es"
    and "st = WalkDir md (dir r) (RootDir failed es)"
  shows "fst (scan md fs r) = Inr (general_sections st @ directory_sections st) \<and>
         (\<forall>s\<in>set (general_sections st @ directory_sections st).
            Documents s \<noteq> [] \<or> Readme s \<noteq> []) \<and>
         (valid_entries es \<longrightarrow>
            (\<forall>s\<in>set (general_sections st).
               Documents s = sortDocuments (dir_pdfs ''.'' (tree_files ''.'' es))) \<and>
            (\<forall>s\<in>set (directory_sections st).
               Section.Name s \<noteq> ''.'' \<and>
               Documents s = sortDocuments (dir_pdfs (Section.Name s) (tree_files ''.'' es))))"
proof (intro conjI impI ballI)
  show "fst (scan md fs r) = Inr (general_sections st @ directory_sections st)"
    using assms by (simp add: scan_RootDir)
next
  fix s assume "s \<in> set (general_sections st @ directory_sections st)"
  then consider "s \<in> set (general_sections st)" | "s \<in> set (directory_sections st)" by auto
  then show "Documents s \<noteq> [] \<or> Readme s \<noteq> []"
  proof cases
    case 1
    from general_sections_cases [OF 1] show ?thesis by (simp add: sortDocuments_Nil)
  next
    case 2
    from directory_section_docs [OF 2] show ?thesis
      using assms(2) by (simp add: WalkDir_names_ok)
  qed
next
  fix s assume "valid_entries es" "s \<in> set (general_sections st)"
  then show "Documents s = sortDocuments (dir_pdfs ''.'' (tree_files ''.'' es))"
    using general_sections_cases [of s st] assms(2) by (simp add: WalkDir_generalDocs)
next
  fix s assume v: "valid_entries es" and s: "s \<in> set (directory_sections st)"
  have d: "Section.Name s \<in> set (map fst (sectionsMap st)) \<and>
        Documents s = sortDocuments (sec_docs st (Section.Name s))"
    using directory_section_docs [OF s] assms(2) by (simp add: WalkDir_names_ok)
  have "''.'' \<notin> set (map fst (sectionsMap st))"
    unfolding assms(2) by (rule WalkDir_keys)
  then show n: "Section.Name s \<noteq> ''.''"
    using d by metis
  from n show "Documents s = sortDocuments (dir_pdfs (Section.Name s) (tree_files ''.'' es))"
    using d v assms(2) by (simp add: WalkDir_sec_docs)
qed

section \<open>Lemmas: single steps of the callback\<close>

lemma walkFn_skip: "\<not> file_call c \<Longrightarrow> \<not> err c \<Longrightarrow> walkFn md c st = st"
  by (auto simp add: walkFn_def file_call_def)

lemma walkFn_general:
  "file_call c \<Longrightarrow> filepath_Dir (rel c) = ''.'' \<Longrightarrow>
   walkFn md c st =
     (if is_pdf (entry_name (d c))
      then st\<lparr>generalDocs := generalDocs st @
             [\<lparr>Document.Name = entry_name (d c), URL = ''/docs/'' @ entry_name (d c)\<rparr>]\<rparr>
      else st)"
  by (simp add: walkFn_def file_call_def is_pdf_def)

lemma walkFn_sub_pdf:
  "file_call c \<Longrightarrow> filepath_Dir (rel c) \<noteq> ''.'' \<Longrightarrow> is_pdf (entry_name (d c)) \<Longrightarrow>
   walkFn md c st =
     st\<lparr>sectionsMap := AList.update (filepath_Dir (rel c))
          ((case map_of (sectionsMap st) (filepath_Dir (rel c)) of
              Some s \<Rightarrow> s
            | None \<Rightarrow> \<lparr>Section.Name = ToSlash (filepath_Dir (rel c)), Documents = [], Readme = []\<rparr>)
           \<lparr>Documents := sec_docs st (filepath_Dir (rel c)) @
              [\<lparr>Document.Name = entry_name (d c), URL = ''/docs/'' @ ToSlash (rel c)\<rparr>]\<rparr>)
          (sectionsMap st)\<rparr>"
  by (auto simp add: walkFn_def file_call_def is_pdf_def sec_docs_def Let_def split: option.splits)

lemma walkFn_sub_readme:
  "file_call c \<Longrightarrow> filepath_Dir (rel c) \<noteq> ''.'' \<Longrightarrow>
   ToLower (entry_name (d c)) = ''readme.md'' \<Longrightarrow>
   walkFn md c st =
     (case renderReadme md (file_content (d c)) (ToSlash (filepath_Dir (rel c))) of
        Inl e \<Rightarrow>
          st\<lparr>sectionsMap := AList.update (filepath_Dir (rel c))
               (case map_of (sectionsMap st) (filepath_Dir (rel c)) of
                  Some s \<Rightarrow> s
                | None \<Rightarrow> \<lparr>Section.Name = ToSlash (filepath_Dir (rel c)), Documents = [],
                           Readme = []\<rparr>)
               (sectionsMap st),
             logged := logged st @ [ErrorReadingREADME (filepath_Dir (rel c))]\<rparr>
      | Inr h \<Rightarrow>
          st\<lparr>sectionsMap := AList.update (filepath_Dir (rel c))
               ((case map_of (sectionsMap st) (filepath_Dir (rel c)) of
                   Some s \<Rightarrow> s
                 | None \<Rightarrow> \<lparr>Section.Name = ToSlash (filepath_Dir (rel c)), Documents = [],
                            Readme = []\<rparr>)
                \<lparr>Readme := h\<rparr>)
               (sectionsMap st)\<rparr>)"
  by (auto simp add: walkFn_def file_call_def HasSuffix_def Let_def split: option.splits sum.splits)

lemma hr_strings:
  "filepath_Dir ''HR/2025/README.md'' = ''HR/2025''"
  "filepath_Dir ''HR/2025/plan.pdf'' = ''HR/2025''"
  "filepath_Dir ''HR/README.md'' = ''HR''"
  "filepath_Dir ''HR/hiring.pdf'' = ''HR''"
  "filepath_Dir ''root.pdf'' = ''.''"
  "ToLower ''README.md'' = ''readme.md''"
  "is_pdf ''plan.pdf''" "is_pdf ''hiring.pdf''" "is_pdf ''root.pdf''"
  by (simp_all add: filepath_Dir_def Separator_def ToLower_def lower_char_def is_pdf_def HasSuffix_def
      char_of_def bit_Suc_0_iff)

lemma hr_calls:
  "WalkDir_calls name (RootDir False hr_entries) =
    [\<lparr>is_root = True, rel = ''.'', d = Dir name False hr_entries, err = False\<rparr>,
     \<lparr>is_root = False, rel = ''HR'', d = hd hr_entries, err = False\<rparr>,
     \<lparr>is_root = False, rel = ''HR/2025'',
        d = Dir ''2025'' False
          [File ''README.md'' (Some ''# HR 2025''), File ''plan.pdf'' (Some ''pdf content'')],
        err = False\<rparr>,
     \<lparr>is_root = False, rel = ''HR/2025/README.md'', d = File ''README.md'' (Some ''# HR 2025''),
        err = False\<rparr>,
     \<lparr>is_root = False, rel = ''HR/2025/plan.pdf'', d = File ''plan.pdf'' (Some ''pdf content''),
        err = False\<rparr>,
     \<lparr>is_root = False, rel = ''HR/README.md'', d = File ''README.md'' (Some ''# HR Section''),
        err = False\<rparr>,
     \<lparr>is_root = False, rel = ''HR/hiring.pdf'', d = File ''hiring.pdf'' (Some ''pdf content''),
        err = False\<rparr>,
     \<lparr>is_root = False, rel = ''root.pdf'', d = File ''root.pdf'' (Some ''pdf content''),
        err = False\<rparr>]"
  by (simp add: WalkDir_calls_def root_entry_def hr_entries_def child_rel_def entry_name_def
      Separator_def)

lemma hr_walk:
  assumes "renderReadme md (Some ''# HR Section'') ''HR'' = Inr h1"
    and "renderReadme md (Some ''# HR 2025'') ''HR/2025'' = Inr h2"
  shows "WalkDir md name (RootDir False hr_entries) =
    \<lparr>generalDocs = [\<lparr>Document.Name = ''root.pdf'', URL = ''/docs/root.pdf''\<rparr>],
     sectionsMap =
       [(''HR/2025'', \<lparr>Section.Name = ''HR/2025'',
           Documents = [\<lparr>Document.Name = ''plan.pdf'', URL = ''/docs/HR/2025/plan.pdf''\<rparr>],
           Readme = h2\<rparr>),
        (''HR'', \<lparr>Section.Name = ''HR'',
           Documents = [\<lparr>Document.Name = ''hiring.pdf'', URL = ''/docs/HR/hiring.pdf''\<rparr>],
           Readme = h1\<rparr>)],
     logged = []\<rparr>"
  unfolding WalkDir_def hr_calls foldl_Cons foldl_Nil
  by (simp add: walkFn_skip walkFn_sub_readme walkFn_sub_pdf walkFn_general
      file_call_def IsDir_def entry_name_def file_content_def hr_entries_def hr_strings
      ToSlash_id assms empty_state_def sec_docs_def)

section \<open>The tree of the test\<close>

lemma escape_char_nonempty: "escape_char c \<noteq> []"
  by (simp add: escape_char_def)

lemma HTMLEscapeString_nonempty: "s \<noteq> [] \<Longrightarrow> HTMLEscapeString s \<noteq> []"
  by (cases s) (simp_all add: HTMLEscapeString_def escape_char_nonempty)

lemma renderReadme_nonempty:
  assumes "content \<noteq> []"
    and "Render md content (rewrite_walk (''/docs/'' @ relDir @ ''/'') (Parse md content)) \<noteq> Inr []"
  shows "\<exists>h. renderReadme md (Some content) relDir = Inr h \<and> h \<noteq> []"
proof (cases "Render md content (rewrite_walk (''/docs/'' @ relDir @ ''/'') (Parse md content))")
  case (Inl e)
  then show ?thesis
    using assms(1) by (simp add: renderReadme_def HTMLEscapeString_nonempty)
next
  case (Inr out)
  then have "out \<noteq> []" using assms(2) by auto
  then show ?thesis using Inr by (simp add: renderReadme_def)
qed

lemma hr_order: "sort [''HR/2025'', ''HR''] = [''HR'', ''HR/2025'']"
  by code_simp

lemma hr_general:
  assumes "renderReadme md (Some ''# HR Section'') ''HR'' = Inr h1"
    and "renderReadme md (Some ''# HR 2025'') ''HR/2025'' = Inr h2"
  shows "general_sections (WalkDir md name (RootDir False hr_entries)) =
     [\<lparr>Section.Name = generalName,
        Documents = [\<lparr>Document.Name = ''root.pdf'', URL = ''/docs/root.pdf''\<rparr>],
        Readme = []\<rparr>]"
  unfolding hr_walk [OF assms]
  by (simp add: general_sections_unfold sortDocuments_def)

lemma hr_directory:
  assumes "renderReadme md (Some ''# HR Section'') ''HR'' = Inr h1"
    and "renderReadme md (Some ''# HR 2025'') ''HR/2025'' = Inr h2"
  shows "directory_sections (WalkDir md name (RootDir False hr_entries)) =
     [\<lparr>Section.Name = ''HR'',
        Documents = [\<lparr>Document.Name = ''hiring.pdf'', URL = ''/docs/HR/hiring.pdf''\<rparr>],
        Readme = h1\<rparr>,
      \<lparr>Section.Name = ''HR/2025'',
        Documents = [\<lparr>Document.Name = ''plan.pdf'', URL = ''/docs/HR/2025/plan.pdf''\<rparr>],
        Readme = h2\<rparr>]"
  unfolding hr_walk [OF assms]
  by (simp add: directory_sections_unfold emit_key_unfold sortDocuments_def hr_order)

lemma paragraph_readme:
  "renderReadme paragraph_markdown (Some content) relDir = Inr (''<p>'' @ content @ ''</p>'')"
  by (simp add: renderReadme_def paragraph_markdown_def)

lemma hr_valid: "valid_entries hr_entries"
  by (simp add: hr_entries_def valid_name_def Separator_def)

lemma NewDocRepository_stale: "\<not> fresh (NewDocRepository dir0 cacheTTL) t"
  by (simp add: fresh_def NewDocRepository_def)

lemma NewDocRepository_dir: "dir (NewDocRepository dir0 cacheTTL) = dir0"
  by (simp add: NewDocRepository_def)

text \<open>
  Claim C1. On the tree of the test (\<open>root.pdf\<close>; \<open>HR\<close> with \<open>hiring.pdf\<close> and
  \<open>README.md\<close>; \<open>HR/2025\<close> with \<open>plan.pdf\<close> and \<open>README.md\<close>), with a markdown engine
  that does not render the rewritten trees of the two READMEs to the empty string, \<open>scan\<close>
  returns exactly three sections: General with \<open>root.pdf\<close>, \<open>HR\<close> with \<open>hiring.pdf\<close>
  alone and a non-empty readme, \<open>HR/2025\<close> with \<open>plan.pdf\<close> and a non-empty readme; the
  first \<open>GetSections\<close> of a new repository returns the same.
\<close>

theorem scan_hr_scenario:
  assumes "fs dir0 = RootDir False hr_entries"
    and "Render md ''# HR Section'' (rewrite_walk ''/docs/HR/'' (Parse md ''# HR Section'')) \<noteq>
         Inr []"
    and "Render md ''# HR 2025'' (rewrite_walk ''/docs/HR/2025/'' (Parse md ''# HR 2025'')) \<noteq>
         Inr []"
  shows "\<exists>h1 h2. h1 \<noteq> [] \<and> h2 \<noteq> [] \<and>
     fst (scan md fs (NewDocRepository dir0 cacheTTL)) =
       Inr [\<lparr>Section.Name = generalName,
              Documents = [\<lparr>Document.Name = ''root.pdf'', URL = ''/docs/root.pdf''\<rparr>],
              Readme = []\<rparr>,
            \<lparr>Section.Name = ''HR'',
              Documents = [\<lparr>Document.Name = ''hiring.pdf'', URL = ''/docs/HR/hiring.pdf''\<rparr>],
              Readme = h1\<rparr>,
            \<lparr>Section.Name = ''HR/2025'',
              Documents = [\<lparr>Document.Name = ''plan.pdf'', URL = ''/docs/HR/2025/plan.pdf''\<rparr>],
              Readme = h2\<rparr>] \<and>
     fst (GetSections md fs (NewDocRepository dir0 cacheTTL) t1 t2 t3) =
       fst (scan md fs (NewDocRepository dir0 cacheTTL))"
proof -
  obtain h1 where h1: "renderReadme md (Some ''# HR Section'') ''HR'' = Inr h1" "h1 \<noteq> []"
    using renderReadme_nonempty [of "''# HR Section''" md "''HR''"] assms(2) by auto
  obtain h2 where h2: "renderReadme md (Some ''# HR 2025'') ''HR/2025'' = Inr h2" "h2 \<noteq> []"
    using renderReadme_nonempty [of "''# HR 2025''" md "''HR/2025''"] assms(3) by auto
  have s: "fst (scan md fs (NewDocRepository dir0 cacheTTL)) =
       Inr [\<lparr>Section.Name = generalName,
              Documents = [\<lparr>Document.Name = ''root.pdf'', URL = ''/docs/root.pdf''\<rparr>],
              Readme = []\<rparr>,
            \<lparr>Section.Name = ''HR'',
              Documents = [\<lparr>Document.Name = ''hiring.pdf'', URL = ''/docs/HR/hiring.pdf''\<rparr>],
              Readme = h1\<rparr>,
            \<lparr>Section.Name = ''HR/2025'',
              Documents = [\<lparr>Document.Name = ''plan.pdf'', URL = ''/docs/HR/2025/plan.pdf''\<rparr>],
              Readme = h2\<rparr>]"
  proof -
    have "fs (dir (NewDocRepository dir0 cacheTTL)) = RootDir False hr_entries"
      using assms(1) by (simp add: NewDocRepository_dir)
    from scan_RootDir [of fs "NewDocRepository dir0 cacheTTL" False hr_entries md, OF this]
      hr_general [OF h1(1) h2(1), of dir0] hr_directory [OF h1(1) h2(1), of dir0]
    show ?thesis by (simp add: NewDocRepository_dir)
  qed
  have g: "fst (GetSections md fs (NewDocRepository dir0 cacheTTL) t1 t2 t3) =
       fst (scan md fs (NewDocRepository dir0 cacheTTL))"
    by (simp add: GetSections_unfold NewDocRepository_stale split: sum.splits)
  from h1(2) h2(2) s g show ?thesis by blast
qed

theorem scan_hr_scenario_witness:
  "(\<lambda>x. RootDir False hr_entries) ''docs'' = RootDir False hr_entries \<and>
   Render paragraph_markdown ''# HR Section''
     (rewrite_walk ''/docs/HR/'' (Parse paragraph_markdown ''# HR Section'')) \<noteq> Inr [] \<and>
   Render paragraph_markdown ''# HR 2025''
     (rewrite_walk ''/docs/HR/2025/'' (Parse paragraph_markdown ''# HR 2025'')) \<noteq> Inr [] \<and>
   (\<exists>h1 h2. h1 \<noteq> [] \<and> h2 \<noteq> [] \<and>
     fst (scan paragraph_markdown (\<lambda>x. RootDir False hr_entries) (NewDocRepository ''docs'' 5)) =
       Inr [\<lparr>Section.Name = generalName,
              Documents = [\<lparr>Document.Name = ''root.pdf'', URL = ''/docs/root.pdf''\<rparr>],
              Readme = []\<rparr>,
            \<lparr>Section.Name = ''HR'',
              Documents = [\<lparr>Document.Name = ''hiring.pdf'', URL = ''/docs/HR/hiring.pdf''\<rparr>],
              Readme = h1\<rparr>,
            \<lparr>Section.Name = ''HR/2025'',
              Documents = [\<lparr>Document.Name = ''plan.pdf'', URL = ''/docs/HR/2025/plan.pdf''\<rparr>],
              Readme = h2\<rparr>] \<and>
     fst (GetSections paragraph_markdown (\<lambda>x. RootDir False hr_entries) (NewDocRepository ''docs'' 5) 7 8 9) =
       fst (scan paragraph_markdown (\<lambda>x. RootDir False hr_entries) (NewDocRepository ''docs'' 5)))"
proof -
  have 1: "Render paragraph_markdown ''# HR Section''
     (rewrite_walk ''/docs/HR/'' (Parse paragraph_markdown ''# HR Section'')) \<noteq> Inr []"
    by (simp add: paragraph_markdown_def)
  have 2: "Render paragraph_markdown ''# HR 2025''
     (rewrite_walk ''/docs/HR/2025/'' (Parse paragraph_markdown ''# HR 2025'')) \<noteq> Inr []"
    by (simp add: paragraph_markdown_def)
  show ?thesis
    using 1 2 scan_hr_scenario [of "\<lambda>x. RootDir False hr_entries" "''docs''" paragraph_markdown 5 7 8 9, OF refl 1 2]
    by blast
qed


theorem scan_sections_own_files_witness:
  "valid_entries hr_entries \<and>
   directory_sections (WalkDir paragraph_markdown ''docs'' (RootDir False hr_entries)) =
     [\<lparr>Section.Name = ''HR'',
        Documents = [\<lparr>Document.Name = ''hiring.pdf'', URL = ''/docs/HR/hiring.pdf''\<rparr>],
        Readme = ''<p># HR Section</p>''\<rparr>,
      \<lparr>Section.Name = ''HR/2025'',
        Documents = [\<lparr>Document.Name = ''plan.pdf'', URL = ''/docs/HR/2025/plan.pdf''\<rparr>],
        Readme = ''<p># HR 2025</p>''\<rparr>] \<and>
   sortDocuments (dir_pdfs ''HR'' (tree_files ''.'' hr_entries)) =
     [\<lparr>Document.Name = ''hiring.pdf'', URL = ''/docs/HR/hiring.pdf''\<rparr>] \<and>
   sortDocuments (dir_pdfs ''HR/2025'' (tree_files ''.'' hr_entries)) =
     [\<lparr>Document.Name = ''plan.pdf'', URL = ''/docs/HR/2025/plan.pdf''\<rparr>]"
proof -
  have d: "directory_sections (WalkDir paragraph_markdown ''docs'' (RootDir False hr_entries)) =
     [\<lparr>Section.Name = ''HR'',
        Documents = [\<lparr>Document.Name = ''hiring.pdf'', URL = ''/docs/HR/hiring.pdf''\<rparr>],
        Readme = ''<p># HR Section</p>''\<rparr>,
      \<lparr>Section.Name = ''HR/2025'',
        Documents = [\<lparr>Document.Name = ''plan.pdf'', URL = ''/docs/HR/2025/plan.pdf''\<rparr>],
        Readme = ''<p># HR 2025</p>''\<rparr>]"
    using hr_directory [OF paragraph_readme paragraph_readme, of "''docs''"] by simp
  show ?thesis
    using scan_sections_own_files [of "\<lambda>x. RootDir False hr_entries" "NewDocRepository ''docs'' 5"
        False hr_entries "WalkDir paragraph_markdown ''docs'' (RootDir False hr_entries)"
        paragraph_markdown]
    by (simp add: NewDocRepository_dir hr_valid d)
qed

section \<open>The narrative renderer: rewriting and failure\<close>

lemma lower_char_slash: "lower_char c = CHR ''/'' \<longleftrightarrow> c = CHR ''/''"
proof (cases "CHR ''A'' \<le> c \<and> c \<le> CHR ''Z''")
  case True
  then have r: "(65::nat) \<le> of_char c" "of_char c \<le> (90::nat)"
    by (simp_all add: less_eq_char_def)
  then have "take_bit 8 (of_char c + (32::nat)) \<noteq> 47"
    by (simp add: take_bit_eq_mod)
  moreover have "c \<noteq> CHR ''/''"
    using r by auto
  ultimately show ?thesis
    using True by (simp add: lower_char_def char_of_eq_iff)
next
  case False
  then show ?thesis by (auto simp add: lower_char_def)
qed

lemma HasPrefix_lower_slash: "HasPrefix (ToLower u) ''/'' = HasPrefix u ''/''"
  by (cases u) (simp_all add: HasPrefix_def ToLower_def lower_char_slash)

lemma isRelativeURL_iff:
  "isRelativeURL u \<longleftrightarrow>
     \<not> HasPrefix u ''/'' \<and> \<not> HasPrefix (ToLower u) ''http://'' \<and> \<not> HasPrefix (ToLower u) ''https://''"
  by (auto simp add: isRelativeURL_def Let_def HasPrefix_lower_slash)

lemma dests_rewrite_walk: "dests (rewrite_walk bp n) = map (rewrite bp) (dests n)"
  by (induction bp n rule: rewrite_walk.induct) (simp_all add: map_concat cong: map_cong)

lemma blank_rewrite_walk: "blank_dests (rewrite_walk bp n) = blank_dests n"
  by (induction bp n rule: rewrite_walk.induct) (simp_all cong: map_cong)

text \<open>
  Claim C3. The tree handed to the renderer is the parsed tree after the rewriting walk.
  In it, every image and link destination that does not start with \<open>/\<close> and whose
  lower-cased form starts with neither \<open>http://\<close> nor \<open>https://\<close> has become
  \<open>/docs/\<close> + sectionPath + \<open>/\<close> + the destination; every other destination is
  unchanged, and so is everything else in the tree.
\<close>

theorem rewrite_destinations:
  "renderReadme md (Some content) sectionPath =
     (case Render md content (rewrite_walk (''/docs/'' @ sectionPath @ ''/'') (Parse md content)) of
        Inl e \<Rightarrow> Inr (HTMLEscapeString content)
      | Inr out \<Rightarrow> Inr out) \<and>
   dests (rewrite_walk (''/docs/'' @ sectionPath @ ''/'') n) =
     map (\<lambda>u. if \<not> HasPrefix u ''/'' \<and> \<not> HasPrefix (ToLower u) ''http://'' \<and>
                  \<not> HasPrefix (ToLower u) ''https://''
               then ''/docs/'' @ sectionPath @ ''/'' @ u
               else u)
       (dests n) \<and>
   blank_dests (rewrite_walk (''/docs/'' @ sectionPath @ ''/'') n) = blank_dests n"
  by (simp add: renderReadme_def dests_rewrite_walk blank_rewrite_walk rewrite_def
      isRelativeURL_iff)

theorem rewrite_destinations_witness:
  "dests sample_doc =
     [''img.png'', ''https://example.com/x.png'', ''/absolute/x.png'', ''HTTP://EXAMPLE.COM/y.png''] \<and>
   dests (rewrite_walk (''/docs/'' @ ''HR/2025'' @ ''/'') sample_doc) =
     [''/docs/HR/2025/img.png'', ''https://example.com/x.png'', ''/absolute/x.png'',
      ''HTTP://EXAMPLE.COM/y.png'']"
  using rewrite_destinations [of paragraph_markdown "''x''" "''HR/2025''" sample_doc]
  by (simp add: sample_doc_def HasPrefix_def ToLower_def lower_char_def char_of_def bit_Suc_0_iff)

text \<open>
  Claim C6. On content that was read, the narrative renderer returns HTML and no error,
  whatever the markdown engine does; when the engine's renderer fails, the HTML is the
  HTML-escaped content.
\<close>

theorem renderReadme_never_fails:
  "\<exists>html. renderReadme md (Some content) relDir = Inr html \<and>
     ((\<exists>e. Render md content (rewrite_walk (''/docs/'' @ relDir @ ''/'') (Parse md content)) = Inl e)
        \<longrightarrow> html = HTMLEscapeString content)"
  by (cases "Render md content (rewrite_walk (''/docs/'' @ relDir @ ''/'') (Parse md content))")
    (simp_all add: renderReadme_def)

theorem renderReadme_never_fails_witness:
  "Render failing_markdown ''<b>Tom & Jerry</b>''
     (rewrite_walk (''/docs/'' @ ''HR'' @ ''/'') (Parse failing_markdown ''<b>Tom & Jerry</b>'')) =
     Inl RenderError \<and>
   renderReadme failing_markdown (Some ''<b>Tom & Jerry</b>'') ''HR'' =
     Inr ''&lt;b&gt;Tom &amp; Jerry&lt;/b&gt;''"
  using renderReadme_never_fails [of failing_markdown "''<b>Tom & Jerry</b>''" "''HR''"]
  by (simp add: failing_markdown_def HTMLEscapeString_def escape_char_def)

section \<open>A README in the root\<close>

lemma walk_entries_append: "walk_entries p (es1 @ es2) = walk_entries p es1 @ walk_entries p es2"
  by (induction es1) simp_all

lemma readme_no_separator:
  assumes "ToLower n = ''readme.md''"
  shows "Separator \<notin> set n"
proof
  assume "Separator \<in> set n"
  then have "lower_char Separator \<in> set (ToLower n)"
    by (simp add: ToLower_def)
  moreover have "lower_char Separator = Separator"
    by (simp add: Separator_def lower_char_slash)
  ultimately show False
    using assms by (simp add: Separator_def)
qed

lemma Dir_no_separator: "Separator \<notin> set n \<Longrightarrow> filepath_Dir n = ''.''"
proof -
  assume "Separator \<notin> set n"
  then have dw: "dropWhile (\<lambda>c. c \<noteq> Separator) (rev n) = []"
    by auto
  show ?thesis
    by (simp add: filepath_Dir_def dw del: dropWhile_eq_Nil_conv)
qed

lemma walkFn_root_readme:
  assumes "ToLower n = ''readme.md''"
  shows "walkFn md \<lparr>is_root = False, rel = n, d = File n c, err = False\<rparr> st = st"
proof -
  have "filepath_Dir n = ''.''"
    using assms by (simp add: Dir_no_separator readme_no_separator)
  then show ?thesis
    using assms not_pdf_readme [OF assms]
    by (simp add: walkFn_general file_call_def IsDir_def entry_name_def)
qed

lemma root_readme_calls:
  assumes "ToLower n = ''readme.md''"
  shows "foldl (\<lambda>st c. walkFn md c st) st0 (walk_entries ''.'' (es1 @ File n c # es2)) =
         foldl (\<lambda>st c. walkFn md c st) st0 (walk_entries ''.'' (es1 @ es2))"
  using walkFn_root_readme [OF assms]
  by (simp add: walk_entries_append child_rel_def entry_name_def)

lemma walkFn_root:
  "walkFn md \<lparr>is_root = True, rel = q, d = e, err = b\<rparr> st =
     (if b then st\<lparr>logged := logged st @ [ErrorAccessing q]\<rparr> else st)"
  by (simp add: walkFn_def)

lemma WalkDir_RootDir_entries:
  "WalkDir md name (RootDir failed es) =
     foldl (\<lambda>st c. walkFn md c st)
       (if failed then empty_state\<lparr>logged := [ErrorAccessing ''.'']\<rparr> else empty_state)
       (walk_entries ''.'' es)"
  by (simp add: WalkDir_RootDir walkFn_root empty_state_simps)

lemma general_sections_readme: "s \<in> set (general_sections st) \<Longrightarrow> Readme s = []"
  by (simp add: general_sections_unfold split: if_splits)

text \<open>
  Claim C10. A file directly in the root whose lower-cased name is \<open>readme.md\<close> changes
  nothing: \<open>scan\<close> returns the same sections and writes the same log lines as on the tree
  without the file (it is not even read). The General section has an empty readme.
\<close>

theorem root_readme_ignored:
  assumes "ToLower n = ''readme.md''"
    and "fs (dir r) = RootDir failed (es1 @ File n c # es2)"
    and "fs' (dir r) = RootDir failed (es1 @ es2)"
  shows "scan md fs r = scan md fs' r \<and>
         (\<forall>s\<in>set (general_sections (WalkDir md (dir r) (fs (dir r)))). Readme s = [])"
proof
  have "WalkDir md (dir r) (RootDir failed (es1 @ File n c # es2)) =
        WalkDir md (dir r) (RootDir failed (es1 @ es2))"
    using root_readme_calls [OF assms(1)] by (simp add: WalkDir_RootDir_entries)
  then show "scan md fs r = scan md fs' r"
    using assms(2,3) by (simp add: scan_RootDir)
  show "\<forall>s\<in>set (general_sections (WalkDir md (dir r) (fs (dir r)))). Readme s = []"
    by (simp add: general_sections_readme)
qed

section \<open>Small file systems\<close>

lemma fs_of_apply: "fs_of root p = root"
  by (simp add: fs_of_def)

lemma one_pdf_strings: "filepath_Dir ''a.pdf'' = ''.''" "is_pdf ''a.pdf''"
  by (simp_all add: filepath_Dir_def Separator_def ToLower_def lower_char_def is_pdf_def HasSuffix_def)

lemma scan_one_pdf:
  "scan md (fs_of (RootDir False one_pdf)) r = (Inr one_pdf_sections, [])"
  by (simp add: scan_RootDir [of _ _ False one_pdf] fs_of_apply WalkDir_RootDir_entries one_pdf_def
      child_rel_def entry_name_def walkFn_general file_call_def IsDir_def one_pdf_strings
      empty_state_def general_sections_unfold directory_sections_unfold sortDocuments_def
      one_pdf_sections_def)

lemma scan_empty_dir:
  "scan md (fs_of (RootDir False [])) r = (Inr [], [])"
  by (simp add: scan_RootDir [of _ _ False "[]"] fs_of_apply WalkDir_RootDir_entries
      empty_state_def general_sections_unfold directory_sections_unfold)

lemma scan_StatError: "fs (dir r) = StatError \<Longrightarrow> scan md fs r = (Inl CouldNotStat, [])"
  by (simp add: scan_unfold)

lemma scan_RootFile: "fs (dir r) = RootFile \<Longrightarrow> scan md fs r = (Inr [], [])"
  by (simp add: scan_unfold WalkDir_def WalkDir_calls_def walkFn_root empty_state_def
      general_sections_unfold directory_sections_unfold)

lemma scan_LstatError:
  "fs (dir r) = LstatError \<Longrightarrow> scan md fs r = (Inr [], [ErrorAccessing ''.''])"
  by (simp add: scan_unfold WalkDir_def WalkDir_calls_def walkFn_root empty_state_def
      general_sections_unfold directory_sections_unfold)

theorem root_readme_ignored_witness:
  "ToLower ''ReadMe.MD'' = ''readme.md'' \<and>
   scan paragraph_markdown
     (fs_of (RootDir False ([] @ File ''ReadMe.MD'' (Some ''# top'') # one_pdf)))
     (NewDocRepository ''docs'' 5) =
   (Inr one_pdf_sections, [])"
proof -
  have l: "ToLower ''ReadMe.MD'' = ''readme.md''"
    by (simp add: ToLower_def lower_char_def char_of_def bit_Suc_0_iff)
  show ?thesis
    using l root_readme_ignored [of "''ReadMe.MD''"
        "fs_of (RootDir False ([] @ File ''ReadMe.MD'' (Some ''# top'') # one_pdf))"
        "NewDocRepository ''docs'' 5" False "[]" "Some ''# top''" one_pdf
        "fs_of (RootDir False one_pdf)" paragraph_markdown]
    by (simp add: fs_of_apply scan_one_pdf)
qed

section \<open>Failures during the scan\<close>

lemma dir_pdfs_member:
  "(p, n) \<in> set fl \<Longrightarrow> is_pdf n \<Longrightarrow>
   \<lparr>Document.Name = n, URL = ''/docs/'' @ child_rel p n\<rparr> \<in> set (dir_pdfs p fl)"
  by (force simp add: dir_pdfs_def)

lemma emit_key_in_directory_sections:
  "k \<in> set (map fst (sectionsMap st)) \<Longrightarrow> set (emit_key st k) \<subseteq> set (directory_sections st)"
  by (auto simp add: directory_sections_unfold simp del: map_map)

lemma sec_docs_emitted:
  assumes "x \<in> set (sec_docs st k)"
  shows "\<exists>s\<in>set (directory_sections st). x \<in> set (Documents s)"
proof -
  from assms obtain sec where sec: "map_of (sectionsMap st) k = Some sec" "x \<in> set (Documents sec)"
    by (cases "map_of (sectionsMap st) k") (auto simp add: sec_docs_def)
  then have "k \<in> set (map fst (sectionsMap st))"
    by (metis map_of_SomeD fst_conv image_eqI set_map)
  moreover have "emit_key st k = [sec\<lparr>Documents := sortDocuments (Documents sec)\<rparr>]"
    using sec by (auto simp add: emit_key_unfold)
  ultimately have "sec\<lparr>Documents := sortDocuments (Documents sec)\<rparr> \<in> set (directory_sections st)"
    using emit_key_in_directory_sections [of k st] by auto
  moreover have "x \<in> set (Documents (sec\<lparr>Documents := sortDocuments (Documents sec)\<rparr>))"
    using sec(2) by (simp add: set_sortDocuments)
  ultimately show ?thesis by blast
qed

lemma generalDocs_emitted:
  assumes "x \<in> set (generalDocs st)"
  shows "\<exists>s\<in>set (general_sections st). x \<in> set (Documents s)"
  using assms by (auto simp add: general_sections_unfold set_sortDocuments)

lemma pdf_indexed:
  assumes "valid_entries es" "(p, n) \<in> set (tree_files ''.'' es)" "is_pdf n"
    and "st = WalkDir md name (RootDir failed es)"
  shows "\<exists>s\<in>set (general_sections st @ directory_sections st).
           \<lparr>Document.Name = n, URL = ''/docs/'' @ child_rel p n\<rparr> \<in> set (Documents s)"
proof (cases "p = ''.''")
  case True
  have "\<lparr>Document.Name = n, URL = ''/docs/'' @ child_rel p n\<rparr> \<in> set (generalDocs st)"
    using assms dir_pdfs_member [OF assms(2,3)] True by (simp add: WalkDir_generalDocs)
  from generalDocs_emitted [OF this] show ?thesis by auto
next
  case False
  have "\<lparr>Document.Name = n, URL = ''/docs/'' @ child_rel p n\<rparr> \<in> set (sec_docs st p)"
    using assms dir_pdfs_member [OF assms(2,3)] False by (simp add: WalkDir_sec_docs)
  from sec_docs_emitted [OF this] show ?thesis by auto
qed

lemma scan_isl: "isl (fst (scan md fs r)) \<longleftrightarrow> fs (dir r) = StatError"
  by (cases "fs (dir r)") (simp_all add: scan_unfold Let_def)

text \<open>
  Claim C7, amended. \<open>scan\<close> returns an error exactly when \<open>os.Stat\<close> of the root fails.
  On a root directory whose names are file names, every failure met during the walk (a
  directory whose listing failed, a README that cannot be read) is written to the log,
  once and in the order of the walk, and the walk goes on: every PDF among the entries
  that were listed is a document of some returned section.
\<close>

theorem scan_fails_only_on_stat:
  "(isl (fst (scan md fs r)) \<longleftrightarrow> fs (dir r) = StatError) \<and>
   (\<forall>failed es. fs (dir r) = RootDir failed es \<and> valid_entries es \<longrightarrow>
      (\<exists>secs. scan md fs r =
         (Inr secs, (if failed then [ErrorAccessing ''.''] else []) @ tree_failures ''.'' es) \<and>
         (\<forall>x\<in>set (tree_files ''.'' es). is_pdf (snd x) \<longrightarrow>
            (\<exists>s\<in>set secs.
               \<lparr>Document.Name = snd x, URL = ''/docs/'' @ child_rel (fst x) (snd x)\<rparr>
                 \<in> set (Documents s)))))"
proof (intro conjI allI impI)
  show "isl (fst (scan md fs r)) \<longleftrightarrow> fs (dir r) = StatError"
    by (rule scan_isl)
next
  fix failed es
  assume a: "fs (dir r) = RootDir failed es \<and> valid_entries es"
  define st where "st = WalkDir md (dir r) (RootDir failed es)"
  have 1: "scan md fs r =
      (Inr (general_sections st @ directory_sections st),
       (if failed then [ErrorAccessing ''.''] else []) @ tree_failures ''.'' es)"
    using a by (simp add: scan_RootDir [of fs r failed es] st_def WalkDir_logged)
  have 2: "\<forall>x\<in>set (tree_files ''.'' es). is_pdf (snd x) \<longrightarrow>
            (\<exists>s\<in>set (general_sections st @ directory_sections st).
               \<lparr>Document.Name = snd x, URL = ''/docs/'' @ child_rel (fst x) (snd x)\<rparr>
                 \<in> set (Documents s))"
  proof (intro ballI impI)
    fix x assume x: "x \<in> set (tree_files ''.'' es)" "is_pdf (snd x)"
    then have "(fst x, snd x) \<in> set (tree_files ''.'' es)" by simp
    from pdf_indexed [OF _ this x(2) st_def] a
    show "\<exists>s\<in>set (general_sections st @ directory_sections st).
               \<lparr>Document.Name = snd x, URL = ''/docs/'' @ child_rel (fst x) (snd x)\<rparr>
                 \<in> set (Documents s)"
      by simp
  qed
  from 1 2 show "\<exists>secs. scan md fs r =
         (Inr secs, (if failed then [ErrorAccessing ''.''] else []) @ tree_failures ''.'' es) \<and>
         (\<forall>x\<in>set (tree_files ''.'' es). is_pdf (snd x) \<longrightarrow>
            (\<exists>s\<in>set secs.
               \<lparr>Document.Name = snd x, URL = ''/docs/'' @ child_rel (fst x) (snd x)\<rparr>
                 \<in> set (Documents s)))"
    by blast
qed

text \<open>
  Claim C7 as stated fails: a root that is a regular file can be statted, and \<open>scan\<close>
  returns the empty list and no error for it.
\<close>

theorem scan_root_file_counterexample:
  "scan paragraph_markdown (fs_of RootFile) (NewDocRepository ''docs'' 5) = (Inr [], [])"
  by (simp add: scan_RootFile fs_of_apply)

theorem scan_fails_only_on_stat_witness:
  "valid_entries broken_entries \<and>
   \<not> isl (fst (scan paragraph_markdown (fs_of (RootDir True broken_entries))
                (NewDocRepository ''docs'' 5))) \<and>
   snd (scan paragraph_markdown (fs_of (RootDir True broken_entries))
          (NewDocRepository ''docs'' 5)) =
     [ErrorAccessing ''.'', ErrorAccessing ''HR'', ErrorReadingREADME ''HR'']"
proof -
  have v: "valid_entries broken_entries"
    by (simp add: broken_entries_def valid_name_def Separator_def)
  have f: "tree_failures ''.'' broken_entries = [ErrorAccessing ''HR'', ErrorReadingREADME ''HR'']"
    by (simp add: broken_entries_def child_rel_def hr_strings)
  show ?thesis
    using v scan_fails_only_on_stat [of paragraph_markdown "fs_of (RootDir True broken_entries)"
        "NewDocRepository ''docs'' 5"]
    by (auto simp add: fs_of_apply f)
qed

section \<open>The TTL cache: a failed refresh, and two calls in a row\<close>

lemma time_Since_mono: "t \<le> t' \<Longrightarrow> time_Since t c \<le> time_Since t' c"
  by (simp add: time_Since_def)

lemma fresh_earlier: "t \<le> t' \<Longrightarrow> fresh r t' \<Longrightarrow> fresh r t"
  using time_Since_mono [of t t' "cacheTime r"] by (simp add: fresh_def)

lemma GetSections_fresh: "fresh r t1 \<or> fresh r t2 \<Longrightarrow> GetSections md fs r t1 t2 t3 = (Inr (cache r), r, False)"
  by (auto simp add: GetSections_unfold)

lemma GetSections_stale:
  "\<not> fresh r t1 \<Longrightarrow> \<not> fresh r t2 \<Longrightarrow>
   GetSections md fs r t1 t2 t3 =
     (case fst (scan md fs r) of
        Inl e \<Rightarrow> (Inl e, r, True)
      | Inr sections \<Rightarrow> (Inr sections, r\<lparr>cache := sections, cacheTime := t3\<rparr>, True))"
  by (simp add: GetSections_unfold)

lemma scan_same_dir: "dir r' = dir r \<Longrightarrow> scan md fs r' = scan md fs r"
  by (cases "fs (dir r)") (simp_all add: scan_unfold)

text \<open>
  Claim C8. When a call of \<open>GetSections\<close> finds the cache stale and \<open>scan\<close> fails, the
  call returns the error and leaves the repository (the cached list and the timestamp)
  as it was; a later call finds the cache stale too and calls \<open>scan\<close> again.
\<close>

theorem GetSections_failed_refresh:
  assumes "\<not> fresh r t1" and "\<not> fresh r t2"
    and "fst (scan md fs r) = Inl e"
    and "t1 \<le> t4" and "t4 \<le> t5"
  shows "GetSections md fs r t1 t2 t3 = (Inl e, r, True) \<and>
         snd (snd (GetSections md fs' r t4 t5 t6)) = True"
proof
  show "GetSections md fs r t1 t2 t3 = (Inl e, r, True)"
    using assms(1-3) by (simp add: GetSections_stale)
  have "\<not> fresh r t4" "\<not> fresh r t5"
    using assms(1,4,5) fresh_earlier [of t1 t4 r] fresh_earlier [of t1 t5 r] by auto
  then show "snd (snd (GetSections md fs' r t4 t5 t6)) = True"
    by (simp add: GetSections_stale split: sum.splits)
qed

lemma cached_repo_stale: "5 \<le> t \<Longrightarrow> \<not> fresh cached_repo t"
  by (auto simp add: fresh_def cached_repo_def time_Since_def maxDuration_def minDuration_def)

theorem GetSections_failed_refresh_witness:
  "\<not> fresh cached_repo 10 \<and> \<not> fresh cached_repo 11 \<and>
   fst (scan paragraph_markdown (fs_of StatError) cached_repo) = Inl CouldNotStat \<and>
   GetSections paragraph_markdown (fs_of StatError) cached_repo 10 11 12 =
     (Inl CouldNotStat, cached_repo, True) \<and>
   snd (snd (GetSections paragraph_markdown (fs_of (RootDir False one_pdf)) cached_repo 20 21 22))"
proof -
  have 1: "\<not> fresh cached_repo 10" and 2: "\<not> fresh cached_repo 11"
    by (simp_all add: cached_repo_stale)
  have 3: "fst (scan paragraph_markdown (fs_of StatError) cached_repo) = Inl CouldNotStat"
    by (simp add: scan_StatError fs_of_apply)
  show ?thesis
    using 1 2 3 GetSections_failed_refresh [OF 1 2 3, of 20 21 12 "fs_of (RootDir False one_pdf)" 22]
    by simp
qed

text \<open>
  Claim C9. Two calls of \<open>GetSections\<close> in a row on the same file system, the clock not
  running backwards and the second call made within the TTL of the timestamp it finds,
  return the same result.
\<close>

theorem GetSections_idempotent:
  assumes "GetSections md fs r t1 t2 t3 = (res1, r1, b1)"
    and "GetSections md fs r1 t4 t5 t6 = (res2, r2, b2)"
    and "t1 \<le> t4" and "t4 \<le> t5"
    and "time_Since t4 (cacheTime r1) < sint (ttl r1)"
  shows "res2 = res1"
proof (cases "fresh r t1 \<or> fresh r t2")
  case True
  then have 1: "res1 = Inr (cache r)" "r1 = r" and c: "cache r \<noteq> []"
    using assms(1) by (auto simp add: GetSections_fresh fresh_def)
  have "fresh r t4"
    using assms(5) 1 c by (simp add: fresh_def)
  then show ?thesis
    using assms(2) 1 by (auto simp add: GetSections_fresh)
next
  case False
  then have stale: "\<not> fresh r t1" "\<not> fresh r t2" by auto
  show ?thesis
  proof (cases "fst (scan md fs r)")
    case (Inl e)
    then have 1: "res1 = Inl e" "r1 = r"
      using assms(1) stale by (simp_all add: GetSections_stale)
    have "\<not> fresh r t4" "\<not> fresh r t5"
      using stale(1) assms(3,4) fresh_earlier [of t1 t4 r] fresh_earlier [of t1 t5 r] by auto
    then show ?thesis
      using assms(2) 1 Inl by (simp add: GetSections_stale)
  next
    case (Inr secs)
    then have 1: "res1 = Inr secs" "r1 = r\<lparr>cache := secs, cacheTime := t3\<rparr>"
      using assms(1) stale by (simp_all add: GetSections_stale)
    have s: "scan md fs r1 = scan md fs r"
      by (rule scan_same_dir) (simp add: 1)
    show ?thesis
    proof (cases "fresh r1 t4 \<or> fresh r1 t5")
      case True
      then show ?thesis using assms(2) 1 by (simp add: GetSections_fresh)
    next
      case False
      then show ?thesis using assms(2) 1 s Inr by (simp add: GetSections_stale)
    qed
  qed
qed

section \<open>The TTL cache: serving from the cache and refreshing\<close>

lemma first_call_one_pdf:
  "GetSections paragraph_markdown (fs_of (RootDir False one_pdf)) (NewDocRepository ''docs'' 1000) 1 2 3 =
     (Inr one_pdf_sections, warm_repo, True)"
  by (simp add: GetSections_stale NewDocRepository_stale scan_one_pdf)
    (simp add: warm_repo_def NewDocRepository_def)

lemma warm_repo_fresh: "3 \<le> t \<Longrightarrow> t < 1003 \<Longrightarrow> fresh warm_repo t"
  by (auto simp add: fresh_def warm_repo_def time_Since_def maxDuration_def minDuration_def
      one_pdf_sections_def)

lemma warm_repo_stale: "1003 \<le> t \<Longrightarrow> \<not> fresh warm_repo t"
  by (auto simp add: fresh_def warm_repo_def time_Since_def maxDuration_def minDuration_def)

theorem GetSections_idempotent_witness:
  "GetSections paragraph_markdown (fs_of (RootDir False one_pdf)) (NewDocRepository ''docs'' 1000) 1 2 3 =
     (Inr one_pdf_sections, warm_repo, True) \<and>
   GetSections paragraph_markdown (fs_of (RootDir False one_pdf)) warm_repo 4 5 6 =
     (Inr one_pdf_sections, warm_repo, False) \<and>
   time_Since 4 (cacheTime warm_repo) < sint (ttl warm_repo)"
proof -
  have 2: "GetSections paragraph_markdown (fs_of (RootDir False one_pdf)) warm_repo 4 5 6 =
     (Inr one_pdf_sections, warm_repo, False)"
    using warm_repo_fresh [of 4] by (simp add: GetSections_fresh) (simp add: warm_repo_def)
  have 3: "time_Since 4 (cacheTime warm_repo) < sint (ttl warm_repo)"
    by (simp add: warm_repo_def time_Since_def maxDuration_def minDuration_def)
  show ?thesis
    using first_call_one_pdf 2 3
      GetSections_idempotent [OF first_call_one_pdf 2 _ _ 3]
    by simp
qed

lemma empty_cache_stale: "cache r = [] \<Longrightarrow> \<not> fresh r t"
  by (simp add: fresh_def)

lemma elapsed_fresh:
  assumes "cache r \<noteq> []" "cacheTime r \<le> t" "t - cacheTime r < sint (ttl r)"
  shows "fresh r t"
proof -
  have "time_Since t (cacheTime r) \<le> t - cacheTime r"
    using assms(2) by (simp add: time_Since_def minDuration_def)
  then show ?thesis using assms(1,3) by (simp add: fresh_def)
qed

lemma elapsed_stale:
  assumes "sint (ttl r) \<le> t - cacheTime r"
  shows "\<not> fresh r t"
proof -
  have "sint (ttl r) < 2 ^ 63"
    using sint_lt [of "ttl r"] by simp
  then have "sint (ttl r) \<le> time_Since t (cacheTime r)"
    using assms by (simp add: time_Since_def maxDuration_def)
  then show ?thesis by (simp add: fresh_def)
qed

lemma GetSections_locked_first:
  "fresh r t1 \<Longrightarrow> GetSections_locked md fs r r' t1 t2 t3 = (Inr (cache r), r, False)"
  by (simp add: GetSections_locked_def)

lemma GetSections_locked_second:
  "\<not> fresh r t1 \<Longrightarrow> fresh r' t2 \<Longrightarrow>
   GetSections_locked md fs r r' t1 t2 t3 = (Inr (cache r'), r', False)"
  by (simp add: GetSections_locked_def)

lemma GetSections_locked_scan:
  "\<not> fresh r t1 \<Longrightarrow> \<not> fresh r' t2 \<Longrightarrow>
   GetSections_locked md fs r r' t1 t2 t3 =
     (case fst (scan md fs r') of
        Inl e \<Rightarrow> (Inl e, r', True)
      | Inr sections \<Rightarrow> (Inr sections, r'\<lparr>cache := sections, cacheTime := t3\<rparr>, True))"
  by (simp add: GetSections_locked_def)

lemma GetSections_locked_scanned:
  "snd (snd (GetSections_locked md fs r r' t1 t2 t3)) \<Longrightarrow> \<not> fresh r t1 \<and> \<not> fresh r' t2"
  by (auto simp add: GetSections_locked_def split: if_splits)

lemma GetSections_locked_stored:
  assumes "GetSections_locked md fs r r' t1 t2 t3 = (Inr secs, ra, True)"
  shows "ra = r'\<lparr>cache := secs, cacheTime := t3\<rparr>"
  using assms by (auto simp add: GetSections_locked_def split: if_splits sum.splits)

text \<open>
  Claim C2, amended. For a repository whose cache is not empty (its last successful scan
  returned at least one section):
  a call that finds, at its first check, less than the TTL elapsed since the timestamp
  returns the cached list and does not run \<open>scan\<close>, whatever the file system holds;
  a call made alone when the TTL or more has elapsed runs \<open>scan\<close> and returns what it
  returns for the file system as it is then, storing a returned list with the time of the
  store;
  a call that found the cache stale under the read lock and finds, under the write lock, a
  non-empty cache refreshed less than the TTL ago returns that cache and does not run
  \<open>scan\<close>; a call runs \<open>scan\<close> (once) only when the cache it finds under the write lock
  is stale; so of two callers that found the same stale cache, the second to get the write
  lock within the TTL of the first one's refresh returns the first one's list unscanned.
\<close>

theorem GetSections_ttl:
  "(cache r \<noteq> [] \<and> cacheTime r \<le> t1 \<and> t1 - cacheTime r < sint (ttl r) \<longrightarrow>
      GetSections_locked md fs r r' t1 t2 t3 = (Inr (cache r), r, False)) \<and>
   (sint (ttl r) \<le> t1 - cacheTime r \<and> t1 \<le> t2 \<longrightarrow>
      GetSections md fs r t1 t2 t3 =
        (case fst (scan md fs r) of
           Inl e \<Rightarrow> (Inl e, r, True)
         | Inr sections \<Rightarrow> (Inr sections, r\<lparr>cache := sections, cacheTime := t3\<rparr>, True))) \<and>
   (\<not> fresh r t1 \<and> cache r' \<noteq> [] \<and> cacheTime r' \<le> t2 \<and> t2 - cacheTime r' < sint (ttl r') \<longrightarrow>
      GetSections_locked md fs r r' t1 t2 t3 = (Inr (cache r'), r', False)) \<and>
   (snd (snd (GetSections_locked md fs r r' t1 t2 t3)) \<longrightarrow> \<not> fresh r t1 \<and> \<not> fresh r' t2) \<and>
   (GetSections_locked md fs r r ta1 ta2 ta3 = (Inr secs, ra, True) \<and> secs \<noteq> [] \<and>
    \<not> fresh r tb1 \<and> ta3 \<le> tb2 \<and> tb2 - ta3 < sint (ttl r) \<longrightarrow>
      GetSections_locked md fs' r ra tb1 tb2 tb3 = (Inr secs, ra, False))"
proof (intro conjI impI)
  assume "cache r \<noteq> [] \<and> cacheTime r \<le> t1 \<and> t1 - cacheTime r < sint (ttl r)"
  then have "fresh r t1" by (simp add: elapsed_fresh)
  then show "GetSections_locked md fs r r' t1 t2 t3 = (Inr (cache r), r, False)"
    by (rule GetSections_locked_first)
next
  assume a: "sint (ttl r) \<le> t1 - cacheTime r \<and> t1 \<le> t2"
  then have "\<not> fresh r t1" "\<not> fresh r t2"
    by (simp_all add: elapsed_stale)
  then show "GetSections md fs r t1 t2 t3 =
        (case fst (scan md fs r) of
           Inl e \<Rightarrow> (Inl e, r, True)
         | Inr sections \<Rightarrow> (Inr sections, r\<lparr>cache := sections, cacheTime := t3\<rparr>, True))"
    by (rule GetSections_stale)
next
  assume a: "\<not> fresh r t1 \<and> cache r' \<noteq> [] \<and> cacheTime r' \<le> t2 \<and> t2 - cacheTime r' < sint (ttl r')"
  then have "fresh r' t2" by (simp add: elapsed_fresh)
  then show "GetSections_locked md fs r r' t1 t2 t3 = (Inr (cache r'), r', False)"
    using a by (simp add: GetSections_locked_second)
next
  assume "snd (snd (GetSections_locked md fs r r' t1 t2 t3))"
  then show "\<not> fresh r t1" "\<not> fresh r' t2"
    using GetSections_locked_scanned [of md fs r r' t1 t2 t3] by simp_all
next
  assume a: "GetSections_locked md fs r r ta1 ta2 ta3 = (Inr secs, ra, True) \<and> secs \<noteq> [] \<and>
    \<not> fresh r tb1 \<and> ta3 \<le> tb2 \<and> tb2 - ta3 < sint (ttl r)"
  then have ra: "ra = r\<lparr>cache := secs, cacheTime := ta3\<rparr>"
    using GetSections_locked_stored [of md fs r r ta1 ta2 ta3 secs ra] by simp
  then have "fresh ra tb2"
    using a by (simp add: elapsed_fresh)
  then show "GetSections_locked md fs' r ra tb1 tb2 tb3 = (Inr secs, ra, False)"
    using a ra by (simp add: GetSections_locked_second)
qed

lemma first_call_locked:
  "GetSections_locked paragraph_markdown (fs_of (RootDir False one_pdf))
     (NewDocRepository ''docs'' 1000) (NewDocRepository ''docs'' 1000) 1 2 3 =
     (Inr one_pdf_sections, warm_repo, True)"
  using first_call_one_pdf by (simp add: GetSections_def)

theorem GetSections_ttl_witness:
  "cache warm_repo \<noteq> [] \<and>
   GetSections_locked paragraph_markdown (fs_of (RootDir False [])) warm_repo
       (NewDocRepository ''docs'' 1000) 1002 1004 1005 =
     (Inr one_pdf_sections, warm_repo, False) \<and>
   GetSections paragraph_markdown (fs_of (RootDir False [])) warm_repo 1003 1004 1005 =
     (Inr [], warm_repo\<lparr>cache := [], cacheTime := 1005\<rparr>, True) \<and>
   GetSections_locked paragraph_markdown (fs_of (RootDir False one_pdf))
       (NewDocRepository ''docs'' 1000) (NewDocRepository ''docs'' 1000) 1 2 3 =
     (Inr one_pdf_sections, warm_repo, True) \<and>
   one_pdf_sections \<noteq> [] \<and>
   \<not> fresh (NewDocRepository ''docs'' 1000) 1 \<and>
   GetSections_locked paragraph_markdown (fs_of (RootDir False []))
       (NewDocRepository ''docs'' 1000) warm_repo 1 4 5 =
     (Inr one_pdf_sections, warm_repo, False)"
proof -
  have c: "cache warm_repo \<noteq> []" "one_pdf_sections \<noteq> []" "cache warm_repo = one_pdf_sections"
    "cacheTime warm_repo = 3" "sint (ttl warm_repo) = 1000"
    "sint (ttl (NewDocRepository ''docs'' 1000)) = 1000"
    by (simp_all add: warm_repo_def one_pdf_sections_def NewDocRepository_def)
  note s = NewDocRepository_stale [of "''docs''" 1000 1]
  have 1: "GetSections_locked paragraph_markdown (fs_of (RootDir False [])) warm_repo
       (NewDocRepository ''docs'' 1000) 1002 1004 1005 =
     (Inr one_pdf_sections, warm_repo, False)"
    using GetSections_ttl [where r = warm_repo and ?t1.0 = 1002 and md = paragraph_markdown
        and fs = "fs_of (RootDir False [])" and r' = "NewDocRepository ''docs'' 1000"
        and ?t2.0 = 1004 and ?t3.0 = 1005, THEN conjunct1] c
    by simp
  have 2: "GetSections paragraph_markdown (fs_of (RootDir False [])) warm_repo 1003 1004 1005 =
     (Inr [], warm_repo\<lparr>cache := [], cacheTime := 1005\<rparr>, True)"
    using GetSections_ttl [where r = warm_repo and ?t1.0 = 1003 and md = paragraph_markdown
        and fs = "fs_of (RootDir False [])" and ?t2.0 = 1004 and ?t3.0 = 1005,
        THEN conjunct2, THEN conjunct1] c
    by (simp add: scan_empty_dir)
  have 3: "GetSections_locked paragraph_markdown (fs_of (RootDir False []))
       (NewDocRepository ''docs'' 1000) warm_repo 1 4 5 =
     (Inr one_pdf_sections, warm_repo, False)"
    using GetSections_ttl [where r = "NewDocRepository ''docs'' 1000" and md = paragraph_markdown
        and fs = "fs_of (RootDir False one_pdf)" and ?ta1.0 = 1 and ?ta2.0 = 2 and ?ta3.0 = 3
        and secs = one_pdf_sections and ra = warm_repo and ?tb1.0 = 1 and ?tb2.0 = 4 and ?tb3.0 = 5
        and fs' = "fs_of (RootDir False [])",
        THEN conjunct2, THEN conjunct2, THEN conjunct2, THEN conjunct2]
      first_call_locked s c
    by simp
  from c(1,2) 1 2 3 first_call_locked s show ?thesis by blast
qed

text \<open>
  Claim C2 as stated fails when the last scan succeeded with no section: the cache then
  holds a nil slice, which \<open>GetSections\<close> takes for no cache. A call one nanosecond
  after such a refresh, with a TTL of 1000, scans again and returns the new tree.
\<close>

theorem GetSections_empty_cache_counterexample:
  "GetSections paragraph_markdown (fs_of (RootDir False [])) (NewDocRepository ''docs'' 1000) 1 2 3 =
     (Inr [], \<lparr>dir = ''docs'', cache = [], cacheTime = 3, ttl = 1000\<rparr>, True) \<and>
   4 - 3 < sint (1000 :: 64 word) \<and>
   GetSections paragraph_markdown (fs_of (RootDir False one_pdf))
       \<lparr>dir = ''docs'', cache = [], cacheTime = 3, ttl = 1000\<rparr> 4 5 6 =
     (Inr one_pdf_sections,
      \<lparr>dir = ''docs'', cache = one_pdf_sections, cacheTime = 6, ttl = 1000\<rparr>, True)"
proof (intro conjI)
  show "GetSections paragraph_markdown (fs_of (RootDir False [])) (NewDocRepository ''docs'' 1000) 1 2 3 =
     (Inr [], \<lparr>dir = ''docs'', cache = [], cacheTime = 3, ttl = 1000\<rparr>, True)"
    by (simp add: GetSections_stale NewDocRepository_stale scan_empty_dir)
      (simp add: NewDocRepository_def)
  show "4 - 3 < sint (1000 :: 64 word)"
    by simp
  show "GetSections paragraph_markdown (fs_of (RootDir False one_pdf))
       \<lparr>dir = ''docs'', cache = [], cacheTime = 3, ttl = 1000\<rparr> 4 5 6 =
     (Inr one_pdf_sections,
      \<lparr>dir = ''docs'', cache = one_pdf_sections, cacheTime = 6, ttl = 1000\<rparr>, True)"
    by (simp add: GetSections_stale empty_cache_stale scan_one_pdf)
qed

section \<open>The narratives and the keys after the walk\<close>




lemma call_readme_root:
  "call_readme md k h \<lparr>is_root = True, rel = q, d = x, err = e\<rparr> = h"
  by (simp add: call_readme_def file_call_def)






section \<open>The order of the result\<close>












section \<open>The order of the result on two trees\<close>

















end
